theory Spec2Isabelle
  imports Complex_Main
begin

section \<open>Arrays\<close>

text \<open>
  A numpy array is modelled by its index function; its shape is passed along
  explicitly wherever an operation reads it. A slice \<open>V[:, :m]\<close> is the same
  index function used with column count \<open>m\<close>. Scalars are the elements of a real
  normed field, so that the same definitions read as real arithmetic (type
  \<open>real\<close>) and as complex arithmetic (type \<open>complex\<close>), both exact.
\<close>

type_synonym 'a vec = "nat \<Rightarrow> 'a"
type_synonym 'a mat = "nat \<Rightarrow> nat \<Rightarrow> 'a"

definition zeros :: "'a::zero mat" where
  \<comment> \<open>\<open>np.zeros((m, k), dtype=complex)\<close>\<close>
  "zeros = (\<lambda>i j. 0)"

definition eye :: "'a::zero_neq_one mat" where
  \<comment> \<open>\<open>np.eye(nx)\<close>\<close>
  "eye = (\<lambda>i j. if i = j then 1 else 0)"

definition evec :: "nat \<Rightarrow> 'a::zero_neq_one vec" where
  \<comment> \<open>the j-th unit vector: \<open>e = np.zeros(j+1); e[j] = 1\<close>\<close>
  "evec j = (\<lambda>k. if k = j then 1 else 0)"

definition dot :: "nat \<Rightarrow> 'a::comm_ring_1 vec \<Rightarrow> 'a vec \<Rightarrow> 'a" where
  \<comment> \<open>\<open>u.T.dot(v)\<close> of two vectors of length n: no conjugation\<close>
  "dot n u v = (\<Sum>i<n. u i * v i)"

definition mat_vec :: "nat \<Rightarrow> 'a::comm_ring_1 mat \<Rightarrow> 'a vec \<Rightarrow> 'a vec" where
  \<comment> \<open>\<open>M.dot(v)\<close> for M with k columns\<close>
  "mat_vec k M v = (\<lambda>i. \<Sum>l<k. M i l * v l)"

definition matT_vec :: "nat \<Rightarrow> 'a::comm_ring_1 mat \<Rightarrow> 'a vec \<Rightarrow> 'a vec" where
  \<comment> \<open>\<open>M.T.dot(v)\<close> for M with n rows; also \<open>v.dot(M)\<close> for a 1-D v\<close>
  "matT_vec n M v = (\<lambda>j. \<Sum>i<n. M i j * v i)"

definition mat_mat :: "nat \<Rightarrow> 'a::comm_ring_1 mat \<Rightarrow> 'a mat \<Rightarrow> 'a mat" where
  \<comment> \<open>\<open>M.dot(N)\<close> with inner dimension k\<close>
  "mat_mat k M N = (\<lambda>i j. \<Sum>l<k. M i l * N l j)"

definition mat_T :: "'a mat \<Rightarrow> 'a mat" where
  \<comment> \<open>\<open>M.T\<close>: the plain transpose\<close>
  "mat_T M = (\<lambda>i j. M j i)"

definition col :: "'a mat \<Rightarrow> nat \<Rightarrow> 'a vec" where
  \<comment> \<open>\<open>M[:, j]\<close>\<close>
  "col M j = (\<lambda>i. M i j)"

definition set_col :: "'a mat \<Rightarrow> nat \<Rightarrow> 'a vec \<Rightarrow> 'a mat" where
  \<comment> \<open>\<open>M[:, j] = v\<close>\<close>
  "set_col M j v = (\<lambda>i c. if c = j then v i else M i c)"

definition set_block :: "'a mat \<Rightarrow> nat \<Rightarrow> nat \<Rightarrow> 'a mat \<Rightarrow> 'a mat" where
  \<comment> \<open>\<open>M[:, we:we+r] = N\<close>\<close>
  "set_block M we r N = (\<lambda>i c. if we \<le> c \<and> c < we + r then N i (c - we) else M i c)"

definition vnorm :: "nat \<Rightarrow> 'a::real_normed_field vec \<Rightarrow> real" where
  \<comment> \<open>\<open>np.linalg.norm(v)\<close>: the Euclidean norm of the moduli\<close>
  "vnorm n v = sqrt (\<Sum>i<n. (norm (v i))\<^sup>2)"

definition shifted :: "'a::comm_ring_1 \<Rightarrow> 'a mat \<Rightarrow> 'a mat" where
  \<comment> \<open>\<open>frequency * np.eye(nx) - A\<close>\<close>
  "shifted sigma A = (\<lambda>i j. sigma * eye i j - A i j)"

section \<open>Exceptions and library calls\<close>

datatype exn =
    NotImplementedError | AssertionError | ValueError | IndexError
  | AttributeError | LinAlgError

text \<open>
  The three scipy routines the program calls are parameters of the model.
  \<^item> \<open>lu_factor nx M\<close> is \<open>sclalg.lu_factor(M)\<close>; \<open>None\<close> stands for a
    factorisation with a zero pivot (scipy warns and returns it, and every solve
    against it has non-finite entries).
  \<^item> \<open>lu_solve fac b trans\<close> is \<open>sclalg.lu_solve(fac, b, trans=trans)\<close> on a
    finite right-hand side. On a right-hand side with a NaN entry scipy's finiteness
    check raises ValueError; the model writes that out where it happens.
  \<^item> \<open>inv k M\<close> is \<open>sclalg.inv(M)\<close> for a finite k-by-k matrix; \<open>None\<close>
    stands for the LinAlgError of a singular matrix.
\<close>

record ('a, 'f) scipy =
  lu_factor :: "nat \<Rightarrow> 'a mat \<Rightarrow> 'f option"
  lu_solve :: "'f \<Rightarrow> 'a vec \<Rightarrow> nat \<Rightarrow> 'a vec"
  inv :: "nat \<Rightarrow> 'a mat \<Rightarrow> 'a mat option"

subsection \<open>An exact instance of the library\<close>

text \<open>
  Concrete inputs are evaluated against an exact solver: Cramer's rule, with the
  determinant expanded along the first row. Its "factorisation" is the matrix
  with its size, a zero determinant being the zero pivot; \<open>trans = 1\<close> solves
  with the transposed matrix, as scipy documents it. Its \<open>inv\<close> hands out the
  matrix of Cramer's rule once it has multiplied it back onto the argument.
\<close>

definition vec_of :: "'a::zero list \<Rightarrow> 'a vec" where
  "vec_of xs = (\<lambda>i. if i < length xs then xs ! i else 0)"

definition mat_of :: "'a::zero list list \<Rightarrow> 'a mat" where
  "mat_of rows = (\<lambda>i j. if i < length rows \<and> j < length (rows ! i) then rows ! i ! j else 0)"

definition minor :: "'a mat \<Rightarrow> nat \<Rightarrow> nat \<Rightarrow> 'a mat" where
  "minor M p q = (\<lambda>i j. M (if i < p then i else Suc i) (if j < q then j else Suc j))"

primrec det :: "nat \<Rightarrow> 'a::comm_ring_1 mat \<Rightarrow> 'a" where
  "det 0 M = 1"
| "det (Suc n) M = (\<Sum>j<Suc n. (- 1) ^ j * M 0 j * det n (minor M 0 j))"

definition cramer_inv :: "nat \<Rightarrow> 'a::field mat \<Rightarrow> 'a mat" where
  "cramer_inv n M = (\<lambda>i j. (- 1) ^ (i + j) * det (n - 1) (minor M j i) / det n M)"

primrec all_below :: "nat \<Rightarrow> (nat \<Rightarrow> bool) \<Rightarrow> bool" where
  \<comment> \<open>P holds of every index below n\<close>
  "all_below 0 P \<longleftrightarrow> True"
| "all_below (Suc n) P \<longleftrightarrow> all_below n P \<and> P n"

definition exact_lib :: "('a::field, nat \<times> 'a mat) scipy" where
  "exact_lib =
     \<lparr>lu_factor = (\<lambda>n M. if det n M = 0 then None else Some (n, M)),
      lu_solve = (\<lambda>fac b trans.
                   mat_vec (fst fac)
                     (if trans = 0 then cramer_inv (fst fac) (snd fac)
                      else mat_T (cramer_inv (fst fac) (snd fac))) b),
      inv = (\<lambda>k M. if det k M = 0 then None
                   else if all_below k (\<lambda>a. all_below k
                               (\<lambda>b. mat_mat k (cramer_inv k M) M a b = eye a b))
                        then Some (cramer_inv k M) else None)\<rparr>"

section \<open>construct\_krylov\<close>

text \<open>
  An array the program returns either has finite entries only, or it has
  NaN entries: numpy's division by a zero norm warns and yields NaN, it does not
  raise. \<open>NaNBasis k V\<close> is the array whose columns of index \<open>k\<close> and above are
  NaN and whose columns below \<open>k\<close> are those of \<open>V\<close>.
\<close>

datatype 'a basis = Basis "'a mat" | NaNBasis nat "'a mat"

text \<open>
  Inside the loop the operator is either the stored factorisation (the variable
  \<open>lu_A\<close> after \<open>lu_factor\<close>, solved with \<open>trans=transpose_mode\<close>) or the matrix
  \<open>A\<close> applied directly.
\<close>

datatype ('a, 'f) krylov_operator = Factored 'f nat | Direct "'a mat"

record 'a arnoldi_state =
  Vmat :: "'a mat"
  Hmat :: "'a mat"
  fmat :: "'a mat"

definition apply_operator ::
  "('a::real_normed_field, 'f) scipy \<Rightarrow> nat \<Rightarrow> ('a, 'f) krylov_operator \<Rightarrow> 'a vec \<Rightarrow> 'a vec" where
  "apply_operator lib nx opr v =
     (case opr of
        Factored fac transpose_mode \<Rightarrow> lu_solve lib fac v transpose_mode
      | Direct A \<Rightarrow> mat_vec nx A v)"

definition arnoldi_step ::
  "('a::real_normed_field, 'f) scipy \<Rightarrow> ('a, 'f) krylov_operator \<Rightarrow> nat \<Rightarrow> nat
     \<Rightarrow> 'a arnoldi_state \<Rightarrow> 'a arnoldi_state" where
  \<comment> \<open>one pass of the loop body, lines 244 to 265, for a non-zero \<open>beta\<close>\<close>
  "arnoldi_step lib opr nx j st =
     (let beta = vnorm nx (col (fmat st) j);
          v = (\<lambda>i. 1 / of_real beta * fmat st i j);
          V1 = set_col (Vmat st) (j + 1) v;
          H_hat = (\<lambda>i k. if i < j + 1 then Hmat st i k else of_real beta * evec j k);
          w = apply_operator lib nx opr v;
          h = matT_vec nx V1 w;
          f1 = (\<lambda>i. w i - mat_vec (j + 2) V1 h i);
          s = matT_vec nx V1 f1;
          f2 = (\<lambda>i. f1 i - mat_vec (j + 2) V1 s i);
          h2 = (\<lambda>k. h k + s k);
          H1 = (\<lambda>i k. if i < j + 2 \<and> k < j + 2
                        then (if k < j + 1 then H_hat i k else h2 i)
                        else Hmat st i k)
      in \<lparr>Vmat = V1, Hmat = H1, fmat = set_col (fmat st) (j + 1) f2\<rparr>)"

fun arnoldi_loop ::
  "('a::real_normed_field, 'f) scipy \<Rightarrow> ('a, 'f) krylov_operator \<Rightarrow> nat \<Rightarrow> nat \<Rightarrow> nat
     \<Rightarrow> 'a arnoldi_state \<Rightarrow> exn + 'a basis" where
  \<comment> \<open>\<open>for j in range(0, r-1)\<close>: \<open>j\<close> is the running index, the next argument the
      number of passes left. A zero \<open>beta\<close> makes \<open>1 / beta * f[:, j]\<close> a NaN vector:
      \<open>lu_solve\<close> raises ValueError on it, while \<open>A.dot\<close> carries the NaN through
      every later pass and \<open>V\<close> is returned.\<close>
  "arnoldi_loop lib opr nx j 0 st = Inr (Basis (Vmat st))"
| "arnoldi_loop lib opr nx j (Suc m) st =
     (if vnorm nx (col (fmat st) j) = 0
      then (case opr of
              Factored fac transpose_mode \<Rightarrow> Inl ValueError
            | Direct A \<Rightarrow> Inr (NaNBasis (j + 1) (Vmat st)))
      else arnoldi_loop lib opr nx (j + 1) m (arnoldi_step lib opr nx j st))"

definition initial_assembly ::
  "('a::real_normed_field, 'f) scipy \<Rightarrow> ('a, 'f) krylov_operator \<Rightarrow> nat \<Rightarrow> nat
     \<Rightarrow> 'a vec \<Rightarrow> 'a vec \<Rightarrow> exn + 'a basis" where
  \<comment> \<open>lines 235 to 267; \<open>f[:, 0] = ...\<close> raises IndexError when \<open>r = 0\<close>\<close>
  "initial_assembly lib opr nx r v w =
     (let alpha = dot nx v w in
      if r = 0 then Inl IndexError
      else arnoldi_loop lib opr nx 0 (r - 1)
             \<lparr>Vmat = set_col zeros 0 v,
              Hmat = (\<lambda>i k. if i = 0 \<and> k = 0 then alpha else 0),
              fmat = set_col zeros 0 (\<lambda>i. w i - v i * alpha)\<rparr>)"

definition construct_krylov ::
  "('a::real_normed_field, 'f) scipy \<Rightarrow> nat \<Rightarrow> nat \<Rightarrow> 'a mat \<Rightarrow> 'a vec \<Rightarrow> string \<Rightarrow> string
     \<Rightarrow> (exn + 'a basis) \<times> nat" where
  \<comment> \<open>\<open>construct_krylov(r, lu_A, B, approx_type, side)\<close> with \<open>nx = B.shape[0]\<close>
      and \<open>B\<close> a single column. The second component counts the calls of
      \<open>lu_factor\<close>.\<close>
  "construct_krylov lib nx r lu_A B approx_type side =
     (let transpose_mode = (if side = ''c'' then 1 else 0) in
      if approx_type \<noteq> ''partial_realisation'' then
        (case lu_factor lib nx lu_A of
           None \<Rightarrow> (Inl ValueError, 1)
         | Some fac \<Rightarrow>
             (let v0 = lu_solve lib fac B transpose_mode;
                  nrm = vnorm nx v0
              in if nrm = 0 then (Inl ValueError, 1)
                 else (let v = (\<lambda>i. v0 i / of_real nrm);
                           w = lu_solve lib fac v 0
                       in (initial_assembly lib (Factored fac transpose_mode) nx r v w, 1))))
      else
        (let A = lu_A;
             v_arb = B;
             nrm = vnorm nx v_arb
         in if nrm = 0 then ((if r = 0 then Inl IndexError else Inr (NaNBasis 0 zeros)), 0)
            else (let v = (\<lambda>i. v_arb i / of_real nrm);
                      w = mat_vec nx A v
                  in (initial_assembly lib (Direct A) nx r v w, 0))))"

section \<open>The reducers\<close>

text \<open>
  The attached system is single-input single-output with n states: \<open>A\<close> is n by n, \<open>B\<close>
  and \<open>C\<close> are one-dimensional arrays of length n (the assignment \<open>f[:, 0] = ...\<close> of
  line 238 takes a one-dimensional right-hand side), so that \<open>C.T\<close> is \<open>C\<close> and the
  reshaping of the output side changes nothing.
\<close>

record 'a linear_system =
  states :: nat
  ssA :: "'a mat"
  ssB :: "'a vec"
  ssC :: "'a vec"
  ssD :: "'a mat"
  ssdt :: "real option"

text \<open>
  The interpolation point: \<open>None\<close>, \<open>np.inf\<close>, a finite Python scalar, or a numpy
  array of one or more finite points.
\<close>

datatype 'a frequency = FNone | FInf | FScalar 'a | FArray 'a "'a list"

fun finite_point :: "'a frequency \<Rightarrow> exn + 'a option" where
  \<comment> \<open>\<open>frequency != np.inf and frequency is not None\<close>; the truth value of an
      array of two or more comparisons raises ValueError\<close>
  "finite_point FNone = Inr None"
| "finite_point FInf = Inr None"
| "finite_point (FScalar s) = Inr (Some s)"
| "finite_point (FArray s []) = Inr (Some s)"
| "finite_point (FArray s (t # ts)) = Inl ValueError"

text \<open>
  The reduced matrices \<open>(Ar, Br, Cr)\<close>; \<open>NaNMats k Ar Br Cr\<close> has NaN in every
  entry with an index of \<open>k\<close> or above.
\<close>

datatype 'a rom_mats = Mats "'a mat" "'a vec" "'a vec" | NaNMats nat "'a mat" "'a vec" "'a vec"

definition project ::
  "nat \<Rightarrow> 'a::comm_ring_1 mat \<Rightarrow> 'a vec \<Rightarrow> 'a vec \<Rightarrow> 'a mat \<Rightarrow> 'a mat
     \<Rightarrow> 'a mat \<times> 'a vec \<times> 'a vec" where
  \<comment> \<open>\<open>Ar = W.T.dot(A.dot(V)); Br = W.T.dot(B); Cr = C.dot(V)\<close>\<close>
  "project nx A B C W V =
     (mat_mat nx (mat_T W) (mat_mat nx A V), matT_vec nx W B, matT_vec nx V C)"

definition one_sided_arnoldi ::
  "('a::real_normed_field, 'f) scipy \<Rightarrow> 'a linear_system option \<Rightarrow> 'a frequency \<Rightarrow> nat
     \<Rightarrow> exn + 'a rom_mats" where
  "one_sided_arnoldi lib ss frequency r =
     (case ss of
        None \<Rightarrow> Inl AttributeError
      | Some sys \<Rightarrow>
          (let A = ssA sys; B = ssB sys; C = ssC sys; nx = states sys in
           case finite_point frequency of
             Inl e \<Rightarrow> Inl e
           | Inr point \<Rightarrow>
              (case fst (case point of
                           Some sigma \<Rightarrow> construct_krylov lib nx r (shifted sigma A) B ''Pade'' ''b''
                         | None \<Rightarrow> construct_krylov lib nx r A B ''partial_realisation'' ''b'') of
                 Inl e \<Rightarrow> Inl e
               | Inr (Basis V) \<Rightarrow>
                   (case project nx A B C V V of (Ar, Br, Cr) \<Rightarrow> Inr (Mats Ar Br Cr))
               | Inr (NaNBasis k V) \<Rightarrow>
                   (case project nx A B C V V of (Ar, Br, Cr) \<Rightarrow> Inr (NaNMats k Ar Br Cr)))))"

definition biorthogonalise ::
  "('a::real_normed_field, 'f) scipy \<Rightarrow> nat \<Rightarrow> nat \<Rightarrow> 'a mat \<Rightarrow> 'a mat \<Rightarrow> exn + 'a mat" where
  \<comment> \<open>\<open>W = W.dot(sclalg.inv(W.T.dot(V)).T)\<close> for W and V with nx rows, k columns\<close>
  "biorthogonalise lib nx k W V =
     (case inv lib k (mat_mat nx (mat_T W) V) of
        None \<Rightarrow> Inl LinAlgError
      | Some X \<Rightarrow> Inr (mat_mat k W (mat_T X)))"

definition two_sided_bases ::
  "('a::real_normed_field, 'f) scipy \<Rightarrow> 'a linear_system \<Rightarrow> 'a frequency \<Rightarrow> nat
     \<Rightarrow> exn + 'a mat \<times> 'a mat" where
  \<comment> \<open>lines 129 to 140 of \<open>two_sided_arnoldi\<close>: the pair \<open>(V, W)\<close> after the
      correction of \<open>W\<close>. A NaN entry in \<open>W.T.dot(V)\<close> makes \<open>sclalg.inv\<close> raise
      ValueError.\<close>
  "two_sided_bases lib sys frequency r =
     (let A = ssA sys; B = ssB sys; C = ssC sys; nx = states sys in
      case finite_point frequency of
        Inl e \<Rightarrow> Inl e
      | Inr point \<Rightarrow>
         (case fst (case point of
                      Some sigma \<Rightarrow> construct_krylov lib nx r (shifted sigma A) B ''Pade'' ''b''
                    | None \<Rightarrow> construct_krylov lib nx r A B ''partial_realisation'' ''b'') of
            Inl e \<Rightarrow> Inl e
          | Inr bV \<Rightarrow>
             (case fst (case point of
                          Some sigma \<Rightarrow> construct_krylov lib nx r (shifted sigma A) C ''Pade'' ''c''
                        | None \<Rightarrow> construct_krylov lib nx r A C ''partial_realisation'' ''c'') of
                Inl e \<Rightarrow> Inl e
              | Inr bW \<Rightarrow>
                 (case (bV, bW) of
                    (Basis V, Basis W) \<Rightarrow>
                      (case biorthogonalise lib nx r W V of
                         Inl e \<Rightarrow> Inl e
                       | Inr W' \<Rightarrow> Inr (V, W'))
                  | _ \<Rightarrow> Inl ValueError))))"

definition two_sided_arnoldi ::
  "('a::real_normed_field, 'f) scipy \<Rightarrow> 'a linear_system option \<Rightarrow> 'a frequency \<Rightarrow> nat
     \<Rightarrow> exn + 'a rom_mats" where
  "two_sided_arnoldi lib ss frequency r =
     (case ss of
        None \<Rightarrow> Inl AttributeError
      | Some sys \<Rightarrow>
          (case two_sided_bases lib sys frequency r of
             Inl e \<Rightarrow> Inl e
           | Inr (V, W) \<Rightarrow>
               (case project (states sys) (ssA sys) (ssB sys) (ssC sys) W V of
                  (Ar, Br, Cr) \<Rightarrow> Inr (Mats Ar Br Cr))))"

definition real_rational_arnoldi ::
  "'a linear_system option \<Rightarrow> 'a frequency \<Rightarrow> nat \<Rightarrow> exn + 'a rom_mats" where
  \<comment> \<open>the first statement raises; the rest of the body is never reached\<close>
  "real_rational_arnoldi ss frequency r = Inl NotImplementedError"

fun nfreq_of :: "'a frequency \<Rightarrow> nat" where
  \<comment> \<open>\<open>frequency.shape[0]\<close>, or 1 where the attribute is missing\<close>
  "nfreq_of (FArray s ts) = Suc (length ts)"
| "nfreq_of _ = 1"

fun points_of :: "'a frequency \<Rightarrow> 'a list" where
  "points_of (FArray s ts) = s # ts"
| "points_of _ = []"

fun dual_loop ::
  "('a::real_normed_field, 'f) scipy \<Rightarrow> 'a linear_system \<Rightarrow> nat \<Rightarrow> 'a list \<Rightarrow> nat
     \<Rightarrow> 'a mat \<times> 'a mat \<Rightarrow> nat \<Rightarrow> (exn + 'a mat \<times> 'a mat) \<times> nat" where
  \<comment> \<open>\<open>for i in range(nfreq)\<close> over the points still to do, with the column offset
      \<open>we\<close>, the arrays \<open>(V, W)\<close> and the count of \<open>lu_factor\<close> calls so far. In
      Pade mode \<open>construct_krylov\<close> returns no array with NaN; were there one,
      \<open>sclalg.inv\<close> would raise ValueError on it.\<close>
  "dual_loop lib sys r [] we VW cnt = (Inr VW, cnt)"
| "dual_loop lib sys r (sigma # rest) we VW cnt =
     (let nx = states sys;
          lu_A = shifted sigma (ssA sys);
          kb = construct_krylov lib nx r lu_A (ssB sys) ''Pade'' ''b''
      in case fst kb of
           Inl e \<Rightarrow> (Inl e, cnt + snd kb)
         | Inr (NaNBasis k Vk) \<Rightarrow> (Inl ValueError, cnt + snd kb)
         | Inr (Basis Vk) \<Rightarrow>
            (let kc = construct_krylov lib nx r lu_A (ssC sys) ''Pade'' ''c''
             in case fst kc of
                  Inl e \<Rightarrow> (Inl e, cnt + snd kb + snd kc)
                | Inr (NaNBasis k Wk) \<Rightarrow> (Inl ValueError, cnt + snd kb + snd kc)
                | Inr (Basis Wk) \<Rightarrow>
                    dual_loop lib sys r rest (we + r)
                      (set_block (fst VW) we r Vk, set_block (snd VW) we r Wk)
                      (cnt + snd kb + snd kc)))"

definition dual_bases ::
  "('a::real_normed_field, 'f) scipy \<Rightarrow> 'a linear_system \<Rightarrow> 'a frequency \<Rightarrow> nat
     \<Rightarrow> (exn + 'a mat \<times> 'a mat) \<times> nat" where
  \<comment> \<open>lines 408 to 427 of \<open>dual_rational_arnoldi_siso\<close>: the pair \<open>(V, W)\<close> after
      the correction of \<open>W\<close>, and the number of \<open>lu_factor\<close> calls\<close>
  "dual_bases lib sys frequency r =
     (let nfreq = nfreq_of frequency in
      if \<not> nfreq > 1 then (Inl AssertionError, 0)
      else (case dual_loop lib sys r (points_of frequency) 0 (zeros, zeros) 0 of
              (Inl e, cnt) \<Rightarrow> (Inl e, cnt)
            | (Inr (V, W), cnt) \<Rightarrow>
                (case biorthogonalise lib (states sys) (r * nfreq) W V of
                   Inl e \<Rightarrow> (Inl e, cnt)
                 | Inr W' \<Rightarrow> (Inr (V, W'), cnt))))"

section \<open>The driver\<close>

text \<open>
  Modelled from the spec: \<open>libss.ss\<close>, the state-space class of
  \<open>sharpy.linear.src.libss\<close>, is not among the sources. The ReducedSystem holds
  the reduced matrices, the original D and the original sample interval.
\<close>

record 'a reduced_system =
  rom_mats :: "'a rom_mats"
  rom_D :: "'a mat"
  rom_dt :: "real option"

definition libss_ss :: "'a rom_mats \<Rightarrow> 'a mat \<Rightarrow> real option \<Rightarrow> 'a reduced_system" where
  \<comment> \<open>Modelled from the spec: the constructor \<open>libss.ss(Ar, Br, Cr, D, dt)\<close>, which is
      not among the sources, builds the ReducedSystem from its five arguments\<close>
  "libss_ss M D dt = \<lparr>rom_mats = M, rom_D = D, rom_dt = dt\<rparr>"

text \<open>
  The fields of \<open>ReducedOrderModel\<close> (the constant settings dictionaries and the
  opaque \<open>data\<close> handle are left out).
\<close>

record 'a driver =
  drv_frequency :: "'a frequency"
  drv_algorithm :: "string option"
  drv_ss :: "'a linear_system option"
  drv_r :: nat
  drv_V :: "'a mat option"
  drv_H :: "'a mat option"
  drv_W :: "'a mat option"
  drv_ssrom :: "'a reduced_system option"
  drv_sstype :: "string option"

definition init_driver :: "'a driver" where
  \<comment> \<open>\<open>__init__\<close>\<close>
  "init_driver =
     \<lparr>drv_frequency = FNone, drv_algorithm = None, drv_ss = None, drv_r = 100,
      drv_V = None, drv_H = None, drv_W = None, drv_ssrom = None, drv_sstype = None\<rparr>"

definition initialise :: "'a driver \<Rightarrow> 'a linear_system \<Rightarrow> 'a driver" where
  "initialise self ss =
     self\<lparr>drv_ss := Some ss,
          drv_sstype := Some (if ssdt ss = None then ''ct'' else ''dt'')\<rparr>"

definition dual_rational_arnoldi_siso ::
  "('a::real_normed_field, 'f) scipy \<Rightarrow> 'a driver \<Rightarrow> 'a frequency \<Rightarrow> nat
     \<Rightarrow> (exn + 'a rom_mats) \<times> 'a driver" where
  \<comment> \<open>the only reducer that writes to \<open>self\<close> (\<open>self.W\<close>, \<open>self.V\<close>)\<close>
  "dual_rational_arnoldi_siso lib self frequency r =
     (case drv_ss self of
        None \<Rightarrow> (Inl AttributeError, self)
      | Some sys \<Rightarrow>
          (case fst (dual_bases lib sys frequency r) of
             Inl e \<Rightarrow> (Inl e, self)
           | Inr (V, W) \<Rightarrow>
               (case project (states sys) (ssA sys) (ssB sys) (ssC sys) W V of
                  (Ar, Br, Cr) \<Rightarrow>
                    (Inr (Mats Ar Br Cr), self\<lparr>drv_W := Some W, drv_V := Some V\<rparr>))))"

definition store_rom :: "'a driver \<Rightarrow> exn + 'a rom_mats \<Rightarrow> exn option \<times> 'a driver" where
  \<comment> \<open>line 65, reached only when the reducer returned\<close>
  "store_rom self res =
     (case res of
        Inl e \<Rightarrow> (Some e, self)
      | Inr M \<Rightarrow>
          (case drv_ss self of
             None \<Rightarrow> (Some AttributeError, self)
           | Some sys \<Rightarrow> (None, self\<lparr>drv_ssrom := Some (libss_ss M (ssD sys) (ssdt sys))\<rparr>)))"

definition run ::
  "('a::real_normed_field, 'f) scipy \<Rightarrow> 'a driver \<Rightarrow> string \<Rightarrow> nat \<Rightarrow> 'a frequency
     \<Rightarrow> exn option \<times> 'a driver" where
  \<comment> \<open>\<open>run(algorithm, r, frequency)\<close>: the exception raised, if any, and the
      driver as the call leaves it\<close>
  "run lib self0 algorithm r frequency =
     (let self = self0\<lparr>drv_algorithm := Some algorithm, drv_frequency := frequency, drv_r := r\<rparr> in
      if algorithm = ''arnoldi'' then
        store_rom self (one_sided_arnoldi lib (drv_ss self) frequency r)
      else if algorithm = ''two_sided_arnoldi'' then
        store_rom self (two_sided_arnoldi lib (drv_ss self) frequency r)
      else if algorithm = ''dual_rational_arnoldi'' then
        (case dual_rational_arnoldi_siso lib self frequency r of
           (res, self') \<Rightarrow> store_rom self' res)
      else if algorithm = ''real_rational_arnoldi'' then
        store_rom self (real_rational_arnoldi (drv_ss self) frequency r)
      else (Some NotImplementedError, self))"

section \<open>Notions the properties are stated with\<close>

definition inv_correct :: "('a::comm_ring_1, 'f) scipy \<Rightarrow> bool" where
  \<comment> \<open>the contract of \<open>sclalg.inv\<close>: what it returns for a k-by-k matrix,
      multiplied onto that matrix, is the identity\<close>
  "inv_correct lib \<longleftrightarrow>
     (\<forall>k M X. inv lib k M = Some X \<longrightarrow> (\<forall>a<k. \<forall>b<k. mat_mat k X M a b = eye a b))"

definition orthonormal_cols :: "nat \<Rightarrow> nat \<Rightarrow> 'a::comm_ring_1 mat \<Rightarrow> bool" where
  \<comment> \<open>the first m columns of V, of length n, are orthonormal for \<open>dot\<close>\<close>
  "orthonormal_cols n m V \<longleftrightarrow>
     (\<forall>a<m. \<forall>b<m. dot n (col V a) (col V b) = (if a = b then 1 else 0))"

definition in_span :: "nat \<Rightarrow> 'a::comm_ring_1 mat \<Rightarrow> 'a vec \<Rightarrow> bool" where
  \<comment> \<open>x is a linear combination of the first m columns of V\<close>
  "in_span m V x \<longleftrightarrow> (\<exists>c. x = mat_vec m V c)"

definition arnoldi_rel :: "nat \<Rightarrow> 'a::comm_ring_1 mat \<Rightarrow> nat \<Rightarrow> 'a arnoldi_state \<Rightarrow> bool" where
  \<comment> \<open>the Arnoldi relation on entry to pass j: A times column l lies in the span
      of the columns up to l + 1, and A times column j differs from the residual
      \<open>f[:, j]\<close> by a combination of the columns up to j\<close>
  "arnoldi_rel n A j st \<longleftrightarrow>
     (\<forall>l<j. in_span (l + 2) (Vmat st) (mat_vec n A (col (Vmat st) l)))
     \<and> in_span (j + 1) (Vmat st) (\<lambda>i. mat_vec n A (col (Vmat st) j) i - fmat st i j)"

definition markov :: "nat \<Rightarrow> 'a::comm_ring_1 mat \<Rightarrow> 'a vec \<Rightarrow> 'a vec \<Rightarrow> nat \<Rightarrow> 'a" where
  \<comment> \<open>the k-th Markov parameter C A^k B of a single-input single-output system
      with n states\<close>
  "markov n A B C k = dot n C ((mat_vec n A ^^ k) B)"

fun nan_from :: "'a rom_mats \<Rightarrow> nat option" where
  \<comment> \<open>the index from which reduced matrices hold NaN, if they hold any\<close>
  "nan_from (Mats Ar Br Cr) = None"
| "nan_from (NaNMats k Ar Br Cr) = Some k"

definition finite_basis :: "exn + 'a basis \<Rightarrow> 'a mat option" where
  \<comment> \<open>the array a call returned, when it returned one without NaN\<close>
  "finite_basis res = (case res of Inr (Basis V) \<Rightarrow> Some V | _ \<Rightarrow> None)"

section \<open>Concrete systems\<close>

definition sys1 :: "real linear_system" where
  \<comment> \<open>one state: A = [[2]], B = [1], C = [1], continuous time\<close>
  "sys1 = \<lparr>states = 1, ssA = mat_of [[2]], ssB = vec_of [1], ssC = vec_of [1],
           ssD = mat_of [[0]], ssdt = None\<rparr>"

definition M12 :: "real mat" where
  "M12 = mat_of [[1, 2], [3, 4]]"

definition sys2 :: "real linear_system" where
  \<comment> \<open>two states; \<open>0 I - A\<close> maps the first unit vector to B, \<open>1 I - A\<close> the
      second\<close>
  "sys2 = \<lparr>states = 2, ssA = mat_of [[1, 1], [- 1, 0]], ssB = vec_of [- 1, 1],
           ssC = vec_of [1, 1], ssD = mat_of [[0]], ssdt = Some 1\<rparr>"

definition sys3 :: "real linear_system" where
  \<comment> \<open>three states, reduced to two\<close>
  "sys3 = \<lparr>states = 3, ssA = mat_of [[1, 2, 0], [1, 3, 1], [0, 1, 1]],
           ssB = vec_of [1, 0, 0], ssC = vec_of [1, 1, 1], ssD = mat_of [[0]], ssdt = None\<rparr>"

definition M3 :: "real mat" where
  \<comment> \<open>a shifted operator that is not symmetric; its inverse is
      \<open>[[1, 1, 0], [0, 1, 0], [1, 0, 1]]\<close>\<close>
  "M3 = mat_of [[1, - 1, 0], [0, 1, 0], [- 1, 1, 1]]"

definition c3 :: "real vec" where
  \<comment> \<open>the first row of \<open>M3\<close>, so that the transposed solve gives the first unit
      vector\<close>
  "c3 = vec_of [1, - 1, 0]"

section \<open>Outcomes of the basis construction\<close>

lemmas arr_defs = vnorm_def dot_def mat_vec_def matT_vec_def mat_mat_def mat_T_def col_def
  set_col_def zeros_def eye_def evec_def vec_of_def mat_of_def shifted_def

lemmas krylov_defs = construct_krylov_def initial_assembly_def Let_def

lemmas driver_defs = run_def store_rom_def initialise_def init_driver_def one_sided_arnoldi_def
  project_def libss_ss_def

subsection \<open>Evaluating the exact library on small matrices\<close>

lemma sum_below_2: "(\<Sum>i<2. f i) = f 0 + f (Suc 0)"
  by (simp add: eval_nat_numeral)

lemma sum_below_3: "(\<Sum>i<3. f i) = f 0 + f (Suc 0) + f 2"
  by (simp add: eval_nat_numeral)

lemma all_below_2: "(\<forall>a<2. P a) \<longleftrightarrow> P 0 \<and> P (Suc 0)"
  by (auto simp: eval_nat_numeral less_Suc_eq)

lemma det_1: "det (Suc 0) M = M 0 0"
  by simp

lemma det_2: "det 2 M = M 0 0 * M (Suc 0) (Suc 0) - M 0 (Suc 0) * M (Suc 0) 0"
  by (simp add: eval_nat_numeral minor_def)

lemma cramer_1: "cramer_inv (Suc 0) M 0 0 = 1 / M 0 0"
  by (simp add: cramer_inv_def)

lemma cramer_2:
  "cramer_inv 2 M 0 0 = M (Suc 0) (Suc 0) / det 2 M"
  "cramer_inv 2 M 0 (Suc 0) = - M 0 (Suc 0) / det 2 M"
  "cramer_inv 2 M (Suc 0) 0 = - M (Suc 0) 0 / det 2 M"
  "cramer_inv 2 M (Suc 0) (Suc 0) = M 0 0 / det 2 M"
  by (simp_all add: cramer_inv_def minor_def)

lemma exact_lu_factor: "lu_factor exact_lib n M = (if det n M = 0 then None else Some (n, M))"
  by (simp add: exact_lib_def)

lemma exact_lu_solve:
  "lu_solve exact_lib (n, M) b t
     = mat_vec n (if t = 0 then cramer_inv n M else mat_T (cramer_inv n M)) b"
  by (simp add: exact_lib_def)

lemma all_below_iff: "all_below n P \<longleftrightarrow> (\<forall>a<n. P a)"
  by (induction n) (auto simp: less_Suc_eq)

lemma exact_inv:
  "inv exact_lib k M = (if det k M = 0 then None
                   else if (\<forall>a<k. \<forall>b<k. mat_mat k (cramer_inv k M) M a b = eye a b)
                        then Some (cramer_inv k M) else None)"
  by (simp add: exact_lib_def all_below_iff)

lemma inv_correct_exact: "inv_correct exact_lib"
  by (auto simp: inv_correct_def exact_inv split: if_splits)

lemmas exact_defs = exact_lu_factor exact_lu_solve exact_inv det_1 det_2 cramer_1 cramer_2
  all_below_2 numeral_2_eq_2 [symmetric]

lemmas run_defs = vnorm_def dot_def mat_vec_def matT_vec_def mat_mat_def mat_T_def col_def
  set_col_def zeros_def eye_def evec_def vec_of_def mat_of_def shifted_def sum_below_2 sum_below_3

lemma M3_factor: "lu_factor exact_lib 3 M3 = Some (3, M3)"
  by (simp add: exact_lib_def M3_def minor_def arr_defs eval_nat_numeral)

lemma M3_solve:
  "lu_solve exact_lib (3, M3) b t 0 = (if t = 0 then b 0 + b (Suc 0) else b 0 + b 2)"
  "lu_solve exact_lib (3, M3) b t (Suc 0) = (if t = 0 then b (Suc 0) else b 0 + b (Suc 0))"
  "lu_solve exact_lib (3, M3) b t 2 = (if t = 0 then b 0 + b 2 else b 2)"
  by (simp_all add: exact_lib_def cramer_inv_def M3_def minor_def arr_defs eval_nat_numeral)

lemma arnoldi_loop_direct_returns:
  "\<exists>b. arnoldi_loop lib (Direct A) nx j m st = Inr b"
  by (induction m arbitrary: j st) simp_all

lemma arnoldi_loop_factored_finite:
  "arnoldi_loop lib (Factored fac t) nx j m st \<noteq> Inr (NaNBasis k V)"
  by (induction m arbitrary: j st) simp_all

lemma partial_realisation_returns:
  "1 \<le> r \<Longrightarrow> \<exists>b. fst (construct_krylov lib nx r A B ''partial_realisation'' side) = Inr b"
  using arnoldi_loop_direct_returns [of lib A nx 0 "r - 1"]
  by (auto simp: krylov_defs)

lemma pade_finite:
  "approx_type \<noteq> ''partial_realisation'' \<Longrightarrow>
   fst (construct_krylov lib nx r M B approx_type side) \<noteq> Inr (NaNBasis k V)"
  by (auto simp: krylov_defs arnoldi_loop_factored_finite split: option.splits)

lemma zero_start:
  "1 \<le> r \<Longrightarrow> vnorm nx B = 0 \<Longrightarrow>
   fst (construct_krylov lib nx r A B ''partial_realisation'' side) = Inr (NaNBasis 0 zeros)"
  by (auto simp: krylov_defs)

lemma factor_count:
  "snd (construct_krylov lib nx r M B approx_type side)
     = (if approx_type \<noteq> ''partial_realisation'' then 1 else 0)"
  by (auto simp: krylov_defs split: option.splits)




text \<open>
  C4, as the claim states it, fails: with a starting vector that is exactly zero the
  partial-realisation construction raises nothing and returns an array whose columns are all
  NaN.
\<close>

theorem zero_start_counterexample:
  "fst (construct_krylov exact_lib 2 2 M12 (vec_of [0, 0]) ''partial_realisation'' ''b'')
     = Inr (NaNBasis 0 zeros)"
  by (simp add: krylov_defs arr_defs eval_nat_numeral)

text \<open>
  C4, amended. The construction has no degeneracy check. For an order of at least one, the
  partial-realisation construction never raises; on a zero starting vector it returns the
  array whose columns are all NaN, and on a zero residual in pass \<open>j\<close> of the loop the array
  whose columns from \<open>j + 1\<close> on are NaN. In Pade mode no array with NaN is ever returned:
  a zero norm of the solved starting vector, or a zero residual in the loop, ends in the
  ValueError of the library's finiteness check.
\<close>

theorem krylov_degenerate_outcomes:
  assumes "1 \<le> r"
  shows "(\<exists>b. fst (construct_krylov lib nx r A B ''partial_realisation'' side) = Inr b)
    \<and> (vnorm nx B = 0 \<longrightarrow>
         fst (construct_krylov lib nx r A B ''partial_realisation'' side)
           = Inr (NaNBasis 0 zeros))
    \<and> (vnorm nx (col (fmat st) j) = 0 \<longrightarrow>
         arnoldi_loop lib (Direct A) nx j (Suc m) st = Inr (NaNBasis (j + 1) (Vmat st))
         \<and> arnoldi_loop lib (Factored fac t) nx j (Suc m) st = Inl ValueError)
    \<and> (\<forall>k V. fst (construct_krylov lib nx r A B ''Pade'' side) \<noteq> Inr (NaNBasis k V))
    \<and> (lu_factor lib nx A = Some fac
         \<and> vnorm nx (lu_solve lib fac B (if side = ''c'' then 1 else 0)) = 0 \<longrightarrow>
         fst (construct_krylov lib nx r A B ''Pade'' side) = Inl ValueError)"
  using assms partial_realisation_returns [of r lib nx A B side]
    zero_start [of r nx B lib A side] pade_finite [of "''Pade''" lib nx r A B side]
  by (auto simp: krylov_defs)

theorem krylov_degenerate_outcomes_witness:
  "fst (construct_krylov exact_lib 2 2 M12 (vec_of [0, 0]) ''partial_realisation'' ''c'')
     = Inr (NaNBasis 0 zeros)
   \<and> fst (construct_krylov exact_lib 2 2 M12 (vec_of [0, 0]) ''Pade'' ''c'') = Inl ValueError"
proof -
  have r: "(1::nat) \<le> 2" by simp
  have z: "vnorm 2 (vec_of [0, 0::real]) = 0"
    by (simp add: arr_defs eval_nat_numeral)
  have f: "lu_factor exact_lib 2 M12 = Some (2, M12)"
    by (simp add: exact_lib_def M12_def arr_defs minor_def eval_nat_numeral)
  have s: "vnorm 2 (lu_solve exact_lib (2, M12) (vec_of [0, 0]) (if ''c'' = ''c'' then 1 else 0)) = 0"
    by (simp add: exact_lib_def arr_defs eval_nat_numeral)
  from krylov_degenerate_outcomes [OF r, of exact_lib 2 M12 "vec_of [0, 0]" "''c''" _ _ _ "(2, M12)"]
    z f s show ?thesis by blast
qed

section \<open>Orthonormality of the basis\<close>

lemma dot_commute: "dot n u v = dot n v u"
  by (simp add: dot_def mult.commute)

lemma dot_diff_right: "dot n u (\<lambda>i. x i - y i) = dot n u x - dot n u y"
  by (simp add: dot_def right_diff_distrib sum_subtractf)

lemma dot_scale_right: "dot n u (\<lambda>i. c * x i) = c * dot n u x"
  by (simp add: dot_def sum_distrib_left mult.left_commute)

lemma dot_scale_left: "dot n (\<lambda>i. c * x i) u = c * dot n x u"
  by (simp add: dot_def sum_distrib_left mult.assoc)

lemma dot_mat_vec: "dot n u (mat_vec m V c) = (\<Sum>l<m. dot n u (col V l) * c l)"
proof -
  have "dot n u (mat_vec m V c) = (\<Sum>i<n. \<Sum>l<m. u i * (V i l * c l))"
    by (simp add: dot_def mat_vec_def sum_distrib_left)
  also have "\<dots> = (\<Sum>l<m. \<Sum>i<n. u i * (V i l * c l))"
    by (rule sum.swap)
  also have "\<dots> = (\<Sum>l<m. dot n u (col V l) * c l)"
    by (simp add: dot_def col_def sum_distrib_right mult.assoc)
  finally show ?thesis .
qed

lemma matT_vec_dot: "matT_vec n V x a = dot n (col V a) x"
  by (simp add: matT_vec_def dot_def col_def)

lemma dot_basis_combination:
  assumes "orthonormal_cols n m V" and "a < m"
  shows "dot n (col V a) (mat_vec m V c) = c a"
proof -
  have "dot n (col V a) (mat_vec m V c) = (\<Sum>l<m. (if a = l then 1 else 0) * c l)"
    unfolding dot_mat_vec using assms
    by (intro sum.cong) (simp_all add: orthonormal_cols_def)
  also have "\<dots> = (\<Sum>l<m. if a = l then c l else 0)"
    by (intro sum.cong) simp_all
  also have "\<dots> = c a"
    using assms(2) by simp
  finally show ?thesis .
qed

lemma gram_schmidt_pass:
  assumes "orthonormal_cols n m V" and "a < m"
  shows "dot n (col V a) (\<lambda>i. x i - mat_vec m V (matT_vec n V x) i) = 0"
  using dot_basis_combination [OF assms, of "matT_vec n V x"]
  by (simp add: dot_diff_right [of n "col V a" x "mat_vec m V (matT_vec n V x)"] matT_vec_dot)

lemma col_set_col: "col (set_col V k v) a = (if a = k then v else col V a)"
  by (auto simp: col_def set_col_def)

lemma vnorm_real_sq: "(vnorm n (f :: real vec))\<^sup>2 = dot n f f"
proof -
  have "(vnorm n f)\<^sup>2 = (\<Sum>i<n. (norm (f i))\<^sup>2)"
    unfolding vnorm_def by (rule real_sqrt_pow2) (simp add: sum_nonneg)
  then show ?thesis
    by (simp add: dot_def power2_eq_square)
qed

lemma unit_after_division:
  fixes f :: "real vec"
  assumes "vnorm n f \<noteq> 0"
  shows "dot n (\<lambda>i. f i / of_real (vnorm n f)) (\<lambda>i. f i / of_real (vnorm n f)) = 1"
proof -
  have "dot n (\<lambda>i. f i / vnorm n f) (\<lambda>i. f i / vnorm n f) = dot n f f / (vnorm n f)\<^sup>2"
    by (simp add: dot_def power2_eq_square sum_divide_distrib)
  then show ?thesis using assms by (simp add: vnorm_real_sq [symmetric])
qed

lemma unit_after_division_real:
  fixes f :: "real vec"
  assumes "vnorm n f \<noteq> 0"
  shows "dot n (\<lambda>i. f i / vnorm n f) (\<lambda>i. f i / vnorm n f) = 1"
  using unit_after_division [OF assms] by simp

lemma orthonormal_extend:
  assumes on: "orthonormal_cols n (Suc j) V"
    and unit: "dot n v v = 1"
    and perp: "\<forall>a\<le>j. dot n (col V a) v = 0"
  shows "orthonormal_cols n (Suc (Suc j)) (set_col V (Suc j) v)"
  unfolding orthonormal_cols_def
proof (intro allI impI)
  fix a b assume a: "a < Suc (Suc j)" and b: "b < Suc (Suc j)"
  let ?V = "set_col V (Suc j) v"
  consider "a \<le> j" "b \<le> j" | "a = Suc j" "b \<le> j" | "a \<le> j" "b = Suc j" | "a = Suc j" "b = Suc j"
    using a b by linarith
  then show "dot n (col ?V a) (col ?V b) = (if a = b then 1 else 0)"
  proof cases
    case 1 then show ?thesis using on by (simp add: col_set_col orthonormal_cols_def)
  next
    case 2 then show ?thesis using perp by (simp add: col_set_col dot_commute [of n v])
  next
    case 3 then show ?thesis using perp by (simp add: col_set_col)
  next
    case 4 then show ?thesis using unit by (simp add: col_set_col)
  qed
qed

lemma arnoldi_step_V:
  "Vmat (arnoldi_step lib opr n j st)
     = set_col (Vmat st) (Suc j)
         (\<lambda>i. 1 / of_real (vnorm n (col (fmat st) j)) * fmat st i j)"
  by (simp add: arnoldi_step_def Let_def)

lemma arnoldi_step_f:
  "col (fmat (arnoldi_step lib opr n j st)) (Suc j)
     = (let V1 = Vmat (arnoldi_step lib opr n j st);
            w = apply_operator lib n opr (col V1 (Suc j));
            f1 = (\<lambda>i. w i - mat_vec (Suc (Suc j)) V1 (matT_vec n V1 w) i)
        in (\<lambda>i. f1 i - mat_vec (Suc (Suc j)) V1 (matT_vec n V1 f1) i))"
  by (simp add: arnoldi_step_def Let_def col_set_col)

lemma arnoldi_step_orthonormal:
  fixes st :: "real arnoldi_state"
  assumes on: "orthonormal_cols n (Suc j) (Vmat st)"
    and perp: "\<forall>a\<le>j. dot n (col (Vmat st) a) (col (fmat st) j) = 0"
    and nz: "vnorm n (col (fmat st) j) \<noteq> 0"
  shows "orthonormal_cols n (Suc (Suc j)) (Vmat (arnoldi_step lib opr n j st))"
    and "\<forall>a\<le>Suc j. dot n (col (Vmat (arnoldi_step lib opr n j st)) a)
                        (col (fmat (arnoldi_step lib opr n j st)) (Suc j)) = 0"
proof -
  let ?f = "col (fmat st) j"
  let ?v = "\<lambda>i. 1 / of_real (vnorm n ?f) * fmat st i j"
  have v: "?v = (\<lambda>i. ?f i / of_real (vnorm n ?f))"
    by (simp add: col_def)
  have unit: "dot n ?v ?v = 1"
    unfolding v by (rule unit_after_division [OF nz])
  have p: "\<forall>a\<le>j. dot n (col (Vmat st) a) ?v = 0"
    using perp dot_scale_right [of n _ "1 / vnorm n ?f" ?f] by (simp add: col_def)
  show on': "orthonormal_cols n (Suc (Suc j)) (Vmat (arnoldi_step lib opr n j st))"
    unfolding arnoldi_step_V by (rule orthonormal_extend [OF on unit p])
  show "\<forall>a\<le>Suc j. dot n (col (Vmat (arnoldi_step lib opr n j st)) a)
                        (col (fmat (arnoldi_step lib opr n j st)) (Suc j)) = 0"
    unfolding arnoldi_step_f Let_def
    using gram_schmidt_pass [OF on'] by (simp add: less_Suc_eq_le)
qed

lemma arnoldi_loop_orthonormal:
  fixes st :: "real arnoldi_state"
  assumes "arnoldi_loop lib opr n j m st = Inr (Basis V)"
    and "orthonormal_cols n (Suc j) (Vmat st)"
    and "\<forall>a\<le>j. dot n (col (Vmat st) a) (col (fmat st) j) = 0"
  shows "orthonormal_cols n (Suc j + m) V"
  using assms
proof (induction m arbitrary: j st)
  case 0
  then show ?case by simp
next
  case (Suc m)
  from Suc.prems(1) have nz: "vnorm n (col (fmat st) j) \<noteq> 0"
    by (auto split: if_splits krylov_operator.splits)
  with Suc.prems(1) have run: "arnoldi_loop lib opr n (Suc j) m (arnoldi_step lib opr n j st) = Inr (Basis V)"
    by simp
  from Suc.IH [OF run arnoldi_step_orthonormal [OF Suc.prems(2,3) nz]]
  show ?case by simp
qed

lemma initial_assembly_orthonormal:
  fixes v :: "real vec"
  assumes "initial_assembly lib opr n r v w = Inr (Basis V)" and "dot n v v = 1"
  shows "orthonormal_cols n r V"
proof -
  from assms(1) have r: "r \<noteq> 0"
    by (auto simp: initial_assembly_def Let_def split: if_splits)
  let ?st = "\<lparr>Vmat = set_col zeros 0 v,
              Hmat = (\<lambda>i k. if i = 0 \<and> k = 0 then dot n v w else 0),
              fmat = set_col zeros 0 (\<lambda>i. w i - v i * dot n v w)\<rparr>"
  have run: "arnoldi_loop lib opr n 0 (r - 1) ?st = Inr (Basis V)"
    using assms(1) r by (simp add: initial_assembly_def Let_def)
  have on: "orthonormal_cols n (Suc 0) (Vmat ?st)"
    using assms(2) by (simp add: orthonormal_cols_def col_set_col)
  have "dot n v (\<lambda>i. w i - v i * dot n v w) = 0"
    using assms(2) dot_scale_right [of n v "dot n v w" v]
    by (simp add: dot_diff_right mult.commute)
  then have perp: "\<forall>a\<le>0. dot n (col (Vmat ?st) a) (col (fmat ?st) 0) = 0"
    by (simp add: col_set_col)
  from arnoldi_loop_orthonormal [OF run on perp] r show ?thesis by simp
qed

lemma construct_krylov_orthonormal_cols:
  fixes lib :: "(real, 'f) scipy"
  assumes "fst (construct_krylov lib n r lu_A B approx_type side) = Inr (Basis V)"
  shows "orthonormal_cols n r V"
  using assms
  by (auto simp: construct_krylov_def Let_def split: if_splits option.splits
      intro!: initial_assembly_orthonormal unit_after_division_real)

text \<open>
  C3, as the claim states it, fails on complex data: the construction normalises with the
  Euclidean norm of the moduli and orthogonalises with the plain transpose. For the
  one-state system with \<open>A = [[0]]\<close>, \<open>B = [1]\<close> and the point \<open>\<i>\<close> the basis is the single
  entry \<open>- \<i>\<close>, and \<open>V.T.dot(V)\<close> is \<open>[[- 1]]\<close>.
\<close>

theorem complex_basis_counterexample:
  "map_option (\<lambda>V. mat_mat 1 (mat_T V) V 0 0)
     (finite_basis (fst (construct_krylov exact_lib 1 1 (shifted \<i> (mat_of [[0]])) (vec_of [1])
        ''Pade'' ''b'')))
     = Some (- 1)"
  by (simp add: krylov_defs run_defs exact_defs finite_basis_def)

text \<open>
  C3, amended. On real data, for either side and either mode, whenever the construction
  returns an array without NaN (which it does exactly when no norm it divides by is zero
  and, in Pade mode, the factorisation has no zero pivot), \<open>V.T.dot(V)\<close> is the r-by-r
  identity.
\<close>

theorem krylov_basis_orthonormal:
  fixes lib :: "(real, 'f) scipy"
  assumes "fst (construct_krylov lib nx r lu_A B approx_type side) = Inr (Basis V)"
  shows "\<forall>a<r. \<forall>b<r. mat_mat nx (mat_T V) V a b = eye a b"
  using construct_krylov_orthonormal_cols [OF assms]
  by (simp add: orthonormal_cols_def mat_mat_def mat_T_def dot_def col_def eye_def)

theorem krylov_basis_orthonormal_witness:
  "\<exists>V. fst (construct_krylov exact_lib 2 2 M12 (vec_of [1, 2]) ''Pade'' ''c'') = Inr (Basis V)
     \<and> (\<forall>a<2. \<forall>b<2. mat_mat 2 (mat_T V) V a b = eye a b)"
proof -
  obtain V where
    e: "fst (construct_krylov exact_lib 2 2 M12 (vec_of [1, 2]) ''Pade'' ''c'') = Inr (Basis V)"
    using exI by (simp add: M12_def krylov_defs run_defs exact_defs)
  from krylov_basis_orthonormal [OF e] e show ?thesis by blast
qed

section \<open>Partial realisation matches the Markov parameters\<close>

lemma in_span_col:
  assumes "l < m"
  shows "in_span m V (col V l)"
proof -
  have "(\<Sum>k<m. V i k * (if k = l then 1 else 0)) = V i l" for i
  proof -
    have "(\<Sum>k<m. V i k * (if k = l then 1 else 0)) = (\<Sum>k<m. if k = l then V i k else 0)"
      by (intro sum.cong) simp_all
    then show ?thesis using assms by simp
  qed
  then have "col V l = mat_vec m V (\<lambda>k. if k = l then 1 else 0)"
    by (simp add: mat_vec_def col_def)
  then show ?thesis unfolding in_span_def by blast
qed

lemma mat_vec_add:
  "mat_vec m V (\<lambda>k. c k + d k) = (\<lambda>i. mat_vec m V c i + mat_vec m V d i)"
  by (simp add: mat_vec_def distrib_left sum.distrib)

lemma in_span_mono:
  assumes "m \<le> m'" and "in_span m V x"
  shows "in_span m' V x"
proof -
  from assms(2) obtain c where x: "x = mat_vec m V c" by (auto simp: in_span_def)
  have "(\<Sum>l<m'. V i l * (if l < m then c l else 0)) = (\<Sum>l<m. V i l * c l)" for i
    using assms(1) by (intro sum.mono_neutral_cong_right) auto
  then have "x = mat_vec m' V (\<lambda>l. if l < m then c l else 0)"
    unfolding x mat_vec_def by simp
  then show ?thesis unfolding in_span_def by blast
qed

lemma in_span_scale: "in_span m V x \<Longrightarrow> in_span m V (\<lambda>i. a * x i)"
proof -
  assume "in_span m V x"
  then obtain c where x: "x = mat_vec m V c" by (auto simp: in_span_def)
  have "(\<lambda>i. a * x i) = mat_vec m V (\<lambda>l. a * c l)"
    unfolding x mat_vec_def by (simp add: sum_distrib_left mult.left_commute)
  then show ?thesis unfolding in_span_def by blast
qed

lemma in_span_add:
  assumes "in_span m V x" and "in_span m V y"
  shows "in_span m V (\<lambda>i. x i + y i)"
proof -
  from assms obtain c d where x: "x = mat_vec m V c" and y: "y = mat_vec m V d"
    by (auto simp: in_span_def)
  have "(\<lambda>i. x i + y i) = mat_vec m V (\<lambda>l. c l + d l)"
    unfolding x y mat_vec_def by (simp add: sum.distrib distrib_left)
  then show ?thesis unfolding in_span_def by blast
qed

lemma in_span_zero: "in_span m V (\<lambda>i. 0)"
  unfolding in_span_def by (rule exI [of _ "\<lambda>l. 0"]) (simp add: mat_vec_def)

lemma in_span_sum:
  assumes "\<forall>l<p. in_span m V (X l)"
  shows "in_span m V (\<lambda>i. \<Sum>l<(p::nat). X l i * c l)"
  using assms
proof (induction p)
  case 0
  then show ?case by (simp add: in_span_zero)
next
  case (Suc p)
  have a: "in_span m V (\<lambda>i. \<Sum>l<p. X l i * c l)" using Suc by simp
  have b: "in_span m V (\<lambda>i. c p * X p i)" using Suc.prems by (simp add: in_span_scale)
  from in_span_add [OF a b] show ?case by (simp add: mult.commute)
qed

lemma in_span_cols_cong:
  assumes "\<forall>l<m. col V' l = col V l" and "in_span m V x"
  shows "in_span m V' x"
proof -
  have "V' i l = V i l" if "l < m" for i l
    using assms(1) that by (auto simp: col_def dest: fun_cong)
  then have "mat_vec m V' c = mat_vec m V c" for c
    by (simp add: mat_vec_def)
  with assms(2) show ?thesis by (auto simp: in_span_def)
qed

lemma mat_vec_combination:
  "mat_vec n A (mat_vec m V c) = (\<lambda>i. \<Sum>l<m. mat_vec n A (col V l) i * c l)"
proof
  fix i
  have "mat_vec n A (mat_vec m V c) i = (\<Sum>k<n. \<Sum>l<m. A i k * (V k l * c l))"
    by (simp add: mat_vec_def sum_distrib_left)
  also have "\<dots> = (\<Sum>l<m. \<Sum>k<n. A i k * (V k l * c l))"
    by (rule sum.swap)
  also have "\<dots> = (\<Sum>l<m. mat_vec n A (col V l) i * c l)"
    by (simp add: mat_vec_def col_def sum_distrib_right mult.assoc)
  finally show "mat_vec n A (mat_vec m V c) i = (\<Sum>l<m. mat_vec n A (col V l) i * c l)" .
qed

lemma arnoldi_step_cols:
  "l \<le> j \<Longrightarrow> col (Vmat (arnoldi_step lib opr n j st)) l = col (Vmat st) l"
  by (simp add: arnoldi_step_V col_set_col)

lemma arnoldi_loop_cols:
  assumes "arnoldi_loop lib opr n j m st = Inr (Basis V)" and "l \<le> j"
  shows "col V l = col (Vmat st) l"
  using assms
proof (induction m arbitrary: j st)
  case 0
  then show ?case by simp
next
  case (Suc m)
  from Suc.prems(1) have nz: "vnorm n (col (fmat st) j) \<noteq> 0"
    by (auto split: if_splits krylov_operator.splits)
  with Suc.prems(1) have run: "arnoldi_loop lib opr n (Suc j) m (arnoldi_step lib opr n j st) = Inr (Basis V)"
    by simp
  from Suc.IH [OF run] Suc.prems(2) show ?case
    by (simp add: arnoldi_step_cols)
qed

lemma arnoldi_step_rel:
  fixes st :: "'a::real_normed_field arnoldi_state"
  assumes rel: "arnoldi_rel n A j st" and nz: "vnorm n (col (fmat st) j) \<noteq> 0"
  shows "arnoldi_rel n A (Suc j) (arnoldi_step lib (Direct A) n j st)"
proof -
  let ?st' = "arnoldi_step lib (Direct A) n j st"
  let ?V = "Vmat st" and ?V' = "Vmat ?st'"
  let ?beta = "of_real (vnorm n (col (fmat st) j)) :: 'a"
  have beta: "?beta \<noteq> 0" using nz by simp
  have keep: "\<forall>l<m. col ?V' l = col ?V l" if "m \<le> Suc j" for m
    using that by (simp add: arnoldi_step_cols)
  have new: "col ?V' (Suc j) = (\<lambda>i. 1 / ?beta * fmat st i j)"
    by (simp add: arnoldi_step_V col_set_col)
  have old: "in_span (l + 2) ?V' (mat_vec n A (col ?V' l))" if "l < j" for l
  proof -
    have "in_span (l + 2) ?V (mat_vec n A (col ?V l))" using rel that by (simp add: arnoldi_rel_def)
    then have "in_span (l + 2) ?V' (mat_vec n A (col ?V l))"
      using that by (intro in_span_cols_cong [OF keep]) simp_all
    then show ?thesis using that by (simp add: arnoldi_step_cols)
  qed
  have cur: "in_span (j + 2) ?V' (mat_vec n A (col ?V' j))"
  proof -
    have "in_span (j + 1) ?V (\<lambda>i. mat_vec n A (col ?V j) i - fmat st i j)"
      using rel by (simp add: arnoldi_rel_def)
    then have "in_span (j + 1) ?V' (\<lambda>i. mat_vec n A (col ?V j) i - fmat st i j)"
      by (intro in_span_cols_cong [OF keep]) simp_all
    then have a: "in_span (j + 2) ?V' (\<lambda>i. mat_vec n A (col ?V j) i - fmat st i j)"
      by (rule in_span_mono [rotated]) simp
    have "in_span (j + 2) ?V' (col ?V' (Suc j))" by (rule in_span_col) simp
    from in_span_scale [OF this, of ?beta]
    have b: "in_span (j + 2) ?V' (\<lambda>i. fmat st i j)"
      using beta by (simp add: new)
    from in_span_add [OF a b] show ?thesis by (simp add: arnoldi_step_cols)
  qed
  have nxt: "in_span (Suc j + 1) ?V' (\<lambda>i. mat_vec n A (col ?V' (Suc j)) i - fmat ?st' i (Suc j))"
  proof -
    let ?w = "mat_vec n A (col ?V' (Suc j))"
    let ?h = "matT_vec n ?V' ?w"
    let ?f1 = "\<lambda>i. ?w i - mat_vec (Suc (Suc j)) ?V' ?h i"
    let ?s = "matT_vec n ?V' ?f1"
    have "col (fmat ?st') (Suc j) = (\<lambda>i. ?f1 i - mat_vec (Suc (Suc j)) ?V' ?s i)"
      using arnoldi_step_f [of lib "Direct A" n j st]
      by (simp add: Let_def apply_operator_def)
    then have f: "fmat ?st' i (Suc j) = ?f1 i - mat_vec (Suc (Suc j)) ?V' ?s i" for i
      by (auto simp: col_def dest: fun_cong)
    have "(\<lambda>i. ?w i - fmat ?st' i (Suc j)) = mat_vec (Suc (Suc j)) ?V' (\<lambda>k. ?h k + ?s k)"
      unfolding f mat_vec_add by (rule ext) simp
    then show ?thesis unfolding in_span_def by auto
  qed
  show ?thesis
    unfolding arnoldi_rel_def using old cur nxt by (auto simp: less_Suc_eq)
qed

lemma arnoldi_loop_rel:
  fixes st :: "'a::real_normed_field arnoldi_state"
  assumes "arnoldi_loop lib (Direct A) n j m st = Inr (Basis V)" and "arnoldi_rel n A j st"
  shows "\<forall>l<j + m. in_span (l + 2) V (mat_vec n A (col V l))"
  using assms
proof (induction m arbitrary: j st)
  case 0
  then show ?case by (simp add: arnoldi_rel_def)
next
  case (Suc m)
  from Suc.prems(1) have nz: "vnorm n (col (fmat st) j) \<noteq> 0"
    by (auto split: if_splits)
  with Suc.prems(1) have run: "arnoldi_loop lib (Direct A) n (Suc j) m (arnoldi_step lib (Direct A) n j st) = Inr (Basis V)"
    by simp
  from Suc.IH [OF run arnoldi_step_rel [OF Suc.prems(2) nz]] show ?case by simp
qed

lemma krylov_in_span:
  assumes arn: "\<forall>l<q. in_span (l + 2) V (mat_vec n A (col V l))"
    and start: "in_span 1 V B" and "k \<le> q"
  shows "in_span (k + 1) V ((mat_vec n A ^^ k) B)"
  using assms(3)
proof (induction k)
  case 0
  then show ?case using start by simp
next
  case (Suc k)
  then have "in_span (k + 1) V ((mat_vec n A ^^ k) B)" by simp
  then obtain c where x: "(mat_vec n A ^^ k) B = mat_vec (k + 1) V c"
    by (auto simp: in_span_def)
  have "in_span (Suc k + 1) V (mat_vec n A (col V l))" if "l < k + 1" for l
  proof -
    have "in_span (l + 2) V (mat_vec n A (col V l))" using arn that Suc.prems by simp
    then show ?thesis by (rule in_span_mono [rotated]) (use that in simp)
  qed
  then have "in_span (Suc k + 1) V (\<lambda>i. \<Sum>l<k + 1. mat_vec n A (col V l) i * c l)"
    by (intro in_span_sum) simp
  then show ?case
    by (simp add: x mat_vec_combination)
qed

lemma projector_on_span:
  assumes "orthonormal_cols n m V" and "in_span m V x"
  shows "mat_vec m V (matT_vec n V x) = x"
proof -
  from assms(2) obtain c where x: "x = mat_vec m V c" by (auto simp: in_span_def)
  have "matT_vec n V x a = c a" if "a < m" for a
    unfolding matT_vec_dot x by (rule dot_basis_combination [OF assms(1) that])
  then have "mat_vec m V (matT_vec n V x) = mat_vec m V c"
    by (simp add: mat_vec_def)
  then show ?thesis by (simp add: x)
qed

lemma mat_mat_vec: "mat_vec r (mat_mat n P Q) y = mat_vec n P (mat_vec r Q y)"
proof
  fix a
  have "mat_vec r (mat_mat n P Q) y a = (\<Sum>b<r. \<Sum>k<n. P a k * (Q k b * y b))"
    by (simp add: mat_vec_def mat_mat_def sum_distrib_right mult.assoc)
  also have "\<dots> = (\<Sum>k<n. \<Sum>b<r. P a k * (Q k b * y b))"
    by (rule sum.swap)
  also have "\<dots> = mat_vec n P (mat_vec r Q y) a"
    by (simp add: mat_vec_def sum_distrib_left)
  finally show "mat_vec r (mat_mat n P Q) y a = mat_vec n P (mat_vec r Q y) a" .
qed

lemma mat_vec_T: "mat_vec n (mat_T V) z = matT_vec n V z"
  by (simp add: mat_vec_def mat_T_def matT_vec_def)

lemma dot_matT_vec: "dot r (matT_vec n V c) y = dot n c (mat_vec r V y)"
proof -
  have "dot r (matT_vec n V c) y = (\<Sum>a<r. \<Sum>i<n. c i * (V i a * y a))"
    by (simp add: dot_def matT_vec_def sum_distrib_right mult.assoc mult.left_commute)
  also have "\<dots> = (\<Sum>i<n. \<Sum>a<r. c i * (V i a * y a))"
    by (rule sum.swap)
  also have "\<dots> = dot n c (mat_vec r V y)"
    by (simp add: dot_def mat_vec_def sum_distrib_left)
  finally show ?thesis .
qed

lemma galerkin_moments:
  assumes on: "orthonormal_cols n r V"
    and kry: "\<forall>k<r. in_span r V ((mat_vec n A ^^ k) B)"
    and k: "k < r"
  shows "mat_vec r V ((mat_vec r (mat_mat n (mat_T V) (mat_mat n A V)) ^^ k) (matT_vec n V B))
           = (mat_vec n A ^^ k) B"
  using k
proof (induction k)
  case 0
  then have "in_span r V ((mat_vec n A ^^ 0) B)" using kry by blast
  then have "in_span r V B" by simp
  from projector_on_span [OF on this] show ?case by simp
next
  case (Suc k)
  then have ih: "mat_vec r V ((mat_vec r (mat_mat n (mat_T V) (mat_mat n A V)) ^^ k)
                    (matT_vec n V B)) = (mat_vec n A ^^ k) B"
    by simp
  have sp: "in_span r V ((mat_vec n A ^^ Suc k) B)" using kry Suc.prems by blast
  let ?R = "mat_vec r (mat_mat n (mat_T V) (mat_mat n A V))"
  have R: "?R y = matT_vec n V (mat_vec n A (mat_vec r V y))" for y
    by (simp add: mat_mat_vec mat_vec_T)
  have "(?R ^^ Suc k) (matT_vec n V B) = ?R ((?R ^^ k) (matT_vec n V B))"
    by simp
  also have "\<dots> = matT_vec n V (mat_vec n A ((mat_vec n A ^^ k) B))"
    unfolding R ih ..
  finally have "(?R ^^ Suc k) (matT_vec n V B) = matT_vec n V ((mat_vec n A ^^ Suc k) B)"
    by simp
  then show ?case
    using projector_on_span [OF on sp] by simp
qed

lemma initial_assembly_rel:
  fixes v :: "'a::real_normed_field vec"
  assumes "initial_assembly lib (Direct A) n r v (mat_vec n A v) = Inr (Basis V)"
  shows "(\<forall>l<r - 1. in_span (l + 2) V (mat_vec n A (col V l))) \<and> col V 0 = v"
proof -
  from assms have r: "r \<noteq> 0"
    by (auto simp: initial_assembly_def Let_def split: if_splits)
  let ?w = "mat_vec n A v"
  let ?st = "\<lparr>Vmat = set_col zeros 0 v,
              Hmat = (\<lambda>i k. if i = 0 \<and> k = 0 then dot n v ?w else 0),
              fmat = set_col zeros 0 (\<lambda>i. ?w i - v i * dot n v ?w)\<rparr>"
  have run: "arnoldi_loop lib (Direct A) n 0 (r - 1) ?st = Inr (Basis V)"
    using assms r by (simp add: initial_assembly_def Let_def)
  have "in_span 1 (Vmat ?st) (col (Vmat ?st) 0)" by (rule in_span_col) simp
  from in_span_scale [OF this, of "dot n v ?w"]
  have "in_span (0 + 1) (Vmat ?st) (\<lambda>i. mat_vec n A (col (Vmat ?st) 0) i - fmat ?st i 0)"
    by (simp add: col_set_col) (simp add: set_col_def mult.commute)
  then have rel: "arnoldi_rel n A 0 ?st"
    by (simp add: arnoldi_rel_def)
  from arnoldi_loop_rel [OF run rel] arnoldi_loop_cols [OF run, of 0]
  show ?thesis by (simp add: col_set_col)
qed

lemma partial_realisation_krylov:
  fixes lib :: "(real, 'f) scipy"
  assumes "fst (construct_krylov lib n r A B ''partial_realisation'' side) = Inr (Basis V)"
    and "k < r"
  shows "in_span r V ((mat_vec n A ^^ k) B)"
proof -
  let ?v = "\<lambda>i. B i / vnorm n B"
  from assms(1) have nz: "vnorm n B \<noteq> 0"
    and ia: "initial_assembly lib (Direct A) n r ?v (mat_vec n A ?v) = Inr (Basis V)"
    by (auto simp: construct_krylov_def Let_def split: if_splits)
  from initial_assembly_rel [OF ia]
  have arn: "\<forall>l<r - 1. in_span (l + 2) V (mat_vec n A (col V l))" and c0: "col V 0 = ?v"
    by simp_all
  have "in_span 1 V (col V 0)" by (rule in_span_col) simp
  from in_span_scale [OF this, of "vnorm n B"]
  have start: "in_span 1 V B" using nz by (simp add: c0)
  have "in_span (k + 1) V ((mat_vec n A ^^ k) B)"
    by (rule krylov_in_span [OF arn start]) (use assms(2) in simp)
  then show ?thesis
    by (rule in_span_mono [rotated]) (use assms(2) in simp)
qed


text \<open>
  C1. For a real single-input single-output system, whenever the one-sided reduction at the
  point infinity returns reduced matrices without NaN (no norm vanished in the
  construction, which forces \<open>r \<le> n\<close>), the reduced system has the Markov parameters of the
  full one for every \<open>k < r\<close>: \<open>Cr Ar^k Br = C A^k B\<close>.
\<close>

theorem partial_realisation_markov:
  fixes lib :: "(real, 'f) scipy" and sys :: "real linear_system"
  assumes "one_sided_arnoldi lib (Some sys) FInf r = Inr (Mats Ar Br Cr)" and "k < r"
  shows "markov r Ar Br Cr k = markov (states sys) (ssA sys) (ssB sys) (ssC sys) k"
proof -
  let ?n = "states sys" and ?A = "ssA sys" and ?B = "ssB sys" and ?C = "ssC sys"
  from assms(1) obtain V where
    V: "fst (construct_krylov lib ?n r ?A ?B ''partial_realisation'' ''b'') = Inr (Basis V)"
    and Ar: "Ar = mat_mat ?n (mat_T V) (mat_mat ?n ?A V)"
    and Br: "Br = matT_vec ?n V ?B" and Cr: "Cr = matT_vec ?n V ?C"
    by (auto simp: one_sided_arnoldi_def Let_def project_def split: sum.splits basis.splits)
  have on: "orthonormal_cols ?n r V"
    by (rule construct_krylov_orthonormal_cols [OF V])
  have kry: "\<forall>k<r. in_span r V ((mat_vec ?n ?A ^^ k) ?B)"
    using partial_realisation_krylov [OF V] by blast
  from galerkin_moments [OF on kry assms(2)]
  show ?thesis
    by (simp add: markov_def Ar Br Cr dot_matT_vec)
qed

theorem partial_realisation_markov_witness:
  "\<exists>Ar Br Cr. one_sided_arnoldi exact_lib (Some sys3) FInf 2 = Inr (Mats Ar Br Cr)
     \<and> markov 2 Ar Br Cr 1 = 2 \<and> markov 3 (ssA sys3) (ssB sys3) (ssC sys3) 1 = 2"
proof -
  obtain Ar Br Cr where
    e: "one_sided_arnoldi exact_lib (Some sys3) FInf 2 = Inr (Mats Ar Br Cr)"
    using exI by (simp add: one_sided_arnoldi_def sys3_def project_def krylov_defs run_defs)
  have k: "(1::nat) < 2" by simp
  have m: "markov (states sys3) (ssA sys3) (ssB sys3) (ssC sys3) 1 = 2"
    by (simp add: markov_def sys3_def run_defs)
  from partial_realisation_markov [OF e k] m e show ?thesis
    by (auto simp: sys3_def)
qed

section \<open>Biorthogonality after the correction of W\<close>

lemma biorthogonalise_identity:
  assumes ic: "inv_correct lib" and bi: "biorthogonalise lib n k W V = Inr W'"
    and a: "a < k" and b: "b < k"
  shows "mat_mat n (mat_T W') V a b = eye a b"
proof -
  let ?M = "mat_mat n (mat_T W) V"
  from bi obtain X where X: "inv lib k ?M = Some X" and W': "W' = mat_mat k W (mat_T X)"
    by (auto simp: biorthogonalise_def split: option.splits)
  have "mat_mat n (mat_T W') V a b = (\<Sum>i<n. \<Sum>l<k. X a l * (W i l * V i b))"
    by (simp add: W' mat_mat_def mat_T_def sum_distrib_right mult.assoc mult.left_commute)
  also have "\<dots> = (\<Sum>l<k. \<Sum>i<n. X a l * (W i l * V i b))"
    by (rule sum.swap)
  also have "\<dots> = mat_mat k X ?M a b"
    by (simp add: mat_mat_def mat_T_def sum_distrib_left)
  also have "\<dots> = eye a b"
    using ic X a b unfolding inv_correct_def by blast
  finally show ?thesis .
qed

lemma mat_mat_assoc: "mat_mat n (mat_mat k P Q) R = mat_mat k P (mat_mat n Q R)"
proof (intro ext)
  fix i j
  have "mat_mat n (mat_mat k P Q) R i j = (\<Sum>m<n. \<Sum>a<k. P i a * (Q a m * R m j))"
    by (simp add: mat_mat_def sum_distrib_right mult.assoc)
  also have "\<dots> = (\<Sum>a<k. \<Sum>m<n. P i a * (Q a m * R m j))"
    by (rule sum.swap)
  also have "\<dots> = mat_mat k P (mat_mat n Q R) i j"
    by (simp add: mat_mat_def sum_distrib_left)
  finally show "mat_mat n (mat_mat k P Q) R i j = mat_mat k P (mat_mat n Q R) i j" .
qed

lemma oblique_projector_idempotent:
  assumes "\<forall>a<k. \<forall>b<k. mat_mat n (mat_T W) V a b = eye a b"
  shows "mat_mat n (mat_mat k V (mat_T W)) (mat_mat k V (mat_T W)) = mat_mat k V (mat_T W)"
proof -
  let ?G = "mat_mat n (mat_T W) V"
  have "mat_mat k ?G (mat_T W) a j = mat_T W a j" if "a < k" for a j
  proof -
    have "mat_mat k ?G (mat_T W) a j = (\<Sum>b<k. (if a = b then 1 else 0) * mat_T W b j)"
      unfolding mat_mat_def [of k ?G] using assms that
      by (intro sum.cong refl) (simp add: eye_def)
    also have "\<dots> = (\<Sum>b<k. if a = b then mat_T W b j else 0)"
      by (intro sum.cong refl) simp
    also have "\<dots> = mat_T W a j" using that by simp
    finally show ?thesis .
  qed
  then have "mat_mat k V (mat_mat k ?G (mat_T W)) = mat_mat k V (mat_T W)"
    by (simp add: mat_mat_def [of k V])
  then show ?thesis
    by (simp add: mat_mat_assoc [of n k V "mat_T W"] mat_mat_assoc [of k n "mat_T W" V, symmetric])
qed

lemma two_sided_bases_from:
  assumes "two_sided_bases lib sys frequency r = Inr (V, W')"
  shows "\<exists>W. biorthogonalise lib (states sys) r W V = Inr W'"
  using assms
  by (auto simp: two_sided_bases_def Let_def split: sum.splits basis.splits option.splits)

lemma dual_bases_from:
  assumes "fst (dual_bases lib sys frequency r) = Inr (V, W')"
  shows "\<exists>W. biorthogonalise lib (states sys) (r * nfreq_of frequency) W V = Inr W'"
  using assms
  by (auto simp: dual_bases_def Let_def split: sum.splits prod.splits if_splits)


text \<open>
  C2. Let \<open>sclalg.inv\<close> keep its contract. Whenever the two-sided reduction, or the
  multi-point reduction, gets past the inversion of \<open>W.T.dot(V)\<close>, the corrected basis
  \<open>W'\<close> satisfies \<open>W'.T.dot(V) = I\<close> (of size \<open>r\<close>, respectively \<open>r * nfreq\<close>), and
  \<open>V.dot(W'.T)\<close> is idempotent, an oblique projector.
\<close>

theorem biorthogonal_after_correction:
  assumes "inv_correct lib"
    and "two_sided_bases lib sys frequency r = Inr (V, W') \<and> k = r
         \<or> fst (dual_bases lib sys frequency r) = Inr (V, W') \<and> k = r * nfreq_of frequency"
  shows "(\<forall>a<k. \<forall>b<k. mat_mat (states sys) (mat_T W') V a b = eye a b)
     \<and> mat_mat (states sys) (mat_mat k V (mat_T W')) (mat_mat k V (mat_T W'))
         = mat_mat k V (mat_T W')"
proof -
  from assms(2) obtain W where "biorthogonalise lib (states sys) k W V = Inr W'"
    using two_sided_bases_from dual_bases_from by blast
  from biorthogonalise_identity [OF assms(1) this]
  have id: "\<forall>a<k. \<forall>b<k. mat_mat (states sys) (mat_T W') V a b = eye a b" by blast
  from id oblique_projector_idempotent [OF id] show ?thesis by blast
qed

theorem biorthogonal_after_correction_witness:
  "(\<exists>V W'. two_sided_bases exact_lib sys2 (FScalar 0) 1 = Inr (V, W')
      \<and> mat_mat 2 (mat_T W') V 0 0 = 1)
   \<and> (\<exists>V W'. fst (dual_bases exact_lib sys2 (FArray 0 [1]) 1) = Inr (V, W')
      \<and> mat_mat 2 (mat_T W') V 0 0 = 1 \<and> mat_mat 2 (mat_T W') V 0 1 = 0)"
proof -
  obtain V W' where e: "two_sided_bases exact_lib sys2 (FScalar 0) 1 = Inr (V, W')"
    using exI
    by (simp add: two_sided_bases_def biorthogonalise_def sys2_def krylov_defs run_defs
          exact_defs)
  have "two_sided_bases exact_lib sys2 (FScalar 0) 1 = Inr (V, W') \<and> (1::nat) = 1
     \<or> fst (dual_bases exact_lib sys2 (FScalar 0) 1) = Inr (V, W')
         \<and> (1::nat) = 1 * nfreq_of (FScalar (0::real))"
    using e by simp
  from biorthogonal_after_correction [OF inv_correct_exact this] e
  have two: "\<exists>V W'. two_sided_bases exact_lib sys2 (FScalar 0) 1 = Inr (V, W')
      \<and> mat_mat 2 (mat_T W') V 0 0 = 1"
    by (auto simp: sys2_def eye_def)
  obtain Vd Wd where d: "fst (dual_bases exact_lib sys2 (FArray 0 [1]) 1) = Inr (Vd, Wd)"
    using exI
    by (simp add: dual_bases_def biorthogonalise_def sys2_def krylov_defs run_defs exact_defs
          set_block_def)
  have "two_sided_bases exact_lib sys2 (FArray 0 [1]) 1 = Inr (Vd, Wd) \<and> (2::nat) = 1
     \<or> fst (dual_bases exact_lib sys2 (FArray 0 [1]) 1) = Inr (Vd, Wd)
         \<and> (2::nat) = 1 * nfreq_of (FArray (0::real) [1])"
    using d by simp
  from biorthogonal_after_correction [OF inv_correct_exact this] d
  have "\<exists>V W'. fst (dual_bases exact_lib sys2 (FArray 0 [1]) 1) = Inr (V, W')
      \<and> mat_mat 2 (mat_T W') V 0 0 = 1 \<and> mat_mat 2 (mat_T W') V 0 1 = 0"
    by (auto simp: sys2_def eye_def)
  with two show ?thesis by blast
qed

section \<open>The first solve of the output side\<close>

text \<open>
  C6 does not hold of the code. On the output side the starting vector and every pass of
  the loop are solved with \<open>trans = 1\<close>, but the solve of line 227, which produces the
  second candidate vector, is called without \<open>trans\<close>. For the operator \<open>M3\<close> and the
  seed \<open>c3\<close> the second column of the basis is the third unit vector, while the two vectors
  that span the order-2 Krylov subspace of the transposed operator seeded from \<open>c3\<close> both
  have a zero third entry.
\<close>

theorem output_side_first_solve:
  "map_option (\<lambda>V. (V 0 1, V 1 1, V 2 1))
     (finite_basis (fst (construct_krylov exact_lib 3 2 M3 c3 ''Pade'' ''c''))) = Some (0, 0, 1)
   \<and> lu_solve exact_lib (3, M3) c3 1 2 = 0
   \<and> lu_solve exact_lib (3, M3) (lu_solve exact_lib (3, M3) c3 1) 1 2 = 0"
  by (simp add: krylov_defs finite_basis_def c3_def M3_factor M3_solve arnoldi_step_V
        vnorm_def dot_def col_def set_col_def zeros_def vec_of_def sum_below_3)

section \<open>One factorisation for each construction\<close>

lemma dual_loop_count:
  assumes "dual_loop lib sys r sigmas we VW cnt = (Inr VW', cnt')"
  shows "cnt' = cnt + 2 * length sigmas"
  using assms
proof (induction sigmas arbitrary: we VW cnt)
  case Nil
  then show ?case by simp
next
  case (Cons sigma rest)
  from Cons.prems show ?case
    by (auto simp: Let_def factor_count split: sum.splits basis.splits dest!: Cons.IH)
qed

lemma dual_bases_count:
  assumes "fst (dual_bases lib sys frequency r) = Inr (V, W')"
  shows "snd (dual_bases lib sys frequency r) = 2 * nfreq_of frequency"
proof (cases frequency)
  case (FArray s ts)
  with assms show ?thesis
    using dual_loop_count [of lib sys r "s # ts" 0 "(zeros, zeros)" 0]
    by (auto simp: dual_bases_def Let_def split: sum.splits prod.splits if_splits)
qed (use assms in \<open>simp_all add: dual_bases_def\<close>)

lemma arnoldi_step_factored_direct:
  assumes "\<And>b. lu_solve lib fac b t = mat_vec n T b"
  shows "arnoldi_step lib (Factored fac t) n j st = arnoldi_step lib (Direct T) n j st"
  by (simp add: arnoldi_step_def apply_operator_def assms)

lemma arnoldi_loop_factored_direct:
  assumes "\<And>b. lu_solve lib fac b t = mat_vec n T b"
  shows "arnoldi_loop lib (Factored fac t) n j m st = Inr (Basis V)
         \<longleftrightarrow> arnoldi_loop lib (Direct T) n j m st = Inr (Basis V)"
  by (induction m arbitrary: j st) (simp_all add: arnoldi_step_factored_direct [OF assms])

lemma pade_is_direct_inverse:
  assumes "lu_factor lib nx M = Some fac" and "\<And>b. lu_solve lib fac b 0 = mat_vec nx Minv b"
    and "approx_type \<noteq> ''partial_realisation''" and "side \<noteq> ''c''"
  shows "fst (construct_krylov lib nx r M B approx_type side) = Inr (Basis V)
     \<longleftrightarrow> fst (construct_krylov lib nx r Minv (mat_vec nx Minv B) ''partial_realisation'' side)
           = Inr (Basis V)"
  using assms(1,3,4) arnoldi_loop_factored_direct [OF assms(2)]
  by (simp add: krylov_defs assms(2))

text \<open>
  C8, as the claim states it, fails: the multi-point reduction of \<open>sys2\<close> at the two points
  0 and 1 succeeds and factors four times, twice for each point.
\<close>

theorem dual_factor_count_counterexample:
  "nfreq_of (FArray (0::real) [1]) = 2
   \<and> \<not> isl (fst (dual_bases exact_lib sys2 (FArray 0 [1]) 1))
   \<and> snd (dual_bases exact_lib sys2 (FArray 0 [1]) 1) = 4"
  by (simp add: dual_bases_def biorthogonalise_def sys2_def krylov_defs run_defs exact_defs
        set_block_def)

text \<open>
  C8, amended. Each call of the construction factors the shifted operator once in Pade
  mode and never in partial-realisation mode; a multi-point reduction that succeeds has
  therefore factored twice for each point, once for the input side and once for the output
  side. On the input side, where the library's solve against the factorisation agrees with
  the product by the matrix \<open>sclalg.inv\<close> returns for the operator, the construction
  returns the same basis as the construction that applies that inverse directly
  at every step, starting from the inverse times \<open>B\<close>.
\<close>

theorem factor_once_per_construction:
  "snd (construct_krylov lib nx r M B approx_type side)
     = (if approx_type \<noteq> ''partial_realisation'' then 1 else 0)
   \<and> (fst (dual_bases lib sys frequency r') = Inr (V', W') \<longrightarrow>
        snd (dual_bases lib sys frequency r') = 2 * nfreq_of frequency)
   \<and> (lu_factor lib nx M = Some fac \<and> inv lib nx M = Some Minv
        \<and> (\<forall>b. lu_solve lib fac b 0 = mat_vec nx Minv b)
        \<and> approx_type \<noteq> ''partial_realisation'' \<and> side \<noteq> ''c'' \<longrightarrow>
        (fst (construct_krylov lib nx r M B approx_type side) = Inr (Basis V)
         \<longleftrightarrow> fst (construct_krylov lib nx r Minv (mat_vec nx Minv B) ''partial_realisation'' side)
               = Inr (Basis V)))"
  using factor_count [of lib nx r M B approx_type side]
    dual_bases_count [of lib sys frequency r' V' W']
    pade_is_direct_inverse [of lib nx M fac Minv approx_type side r B V]
  by blast

theorem factor_once_per_construction_witness:
  "snd (dual_bases exact_lib sys2 (FArray 0 [1]) 1) = 2 * 2
   \<and> (\<exists>V. fst (construct_krylov exact_lib 2 2 (shifted 0 (ssA sys2)) (ssB sys2) ''Pade'' ''b'')
              = Inr (Basis V)
          \<and> fst (construct_krylov exact_lib 2 2 (cramer_inv 2 (shifted 0 (ssA sys2)))
                  (mat_vec 2 (cramer_inv 2 (shifted 0 (ssA sys2))) (ssB sys2))
                  ''partial_realisation'' ''b'') = Inr (Basis V))"
proof -
  let ?M = "shifted 0 (ssA sys2)"
  obtain V' W' where d: "fst (dual_bases exact_lib sys2 (FArray 0 [1]) 1) = Inr (V', W')"
    using exI
    by (simp add: dual_bases_def biorthogonalise_def sys2_def krylov_defs run_defs exact_defs
          set_block_def)
  obtain V where
    e: "fst (construct_krylov exact_lib 2 2 ?M (ssB sys2) ''Pade'' ''b'') = Inr (Basis V)"
    using exI by (simp add: sys2_def krylov_defs run_defs exact_defs)
  have f: "lu_factor exact_lib 2 ?M = Some (2, ?M)"
    by (simp add: sys2_def run_defs exact_defs)
  have i: "inv exact_lib 2 ?M = Some (cramer_inv 2 ?M)"
    by (simp add: sys2_def run_defs exact_defs)
  have s: "\<forall>b. lu_solve exact_lib (2, ?M) b 0 = mat_vec 2 (cramer_inv 2 ?M) b"
    by (simp add: exact_lu_solve)
  from factor_once_per_construction [where lib = exact_lib and nx = 2 and r = 2 and M = ?M
      and B = "ssB sys2" and approx_type = "''Pade''" and side = "''b''" and sys = sys2
      and frequency = "FArray 0 [1]" and r' = 1 and V' = V' and W' = W' and fac = "(2, ?M)"
      and Minv = "cramer_inv 2 ?M" and V = V] d e f i s
  show ?thesis by auto
qed

section \<open>The reducers and the point at infinity\<close>

lemma one_sided_inf_returns:
  "1 \<le> r \<Longrightarrow> frequency = FInf \<or> frequency = FNone
   \<Longrightarrow> \<exists>M. one_sided_arnoldi lib (Some sys) frequency r = Inr M"
  using partial_realisation_returns [of r lib "states sys" "ssA sys" "ssB sys" "''b''"]
  by (auto simp: one_sided_arnoldi_def Let_def split: sum.splits basis.splits prod.splits)


section \<open>The driver\<close>

lemma dual_ignores_ssrom:
  "dual_rational_arnoldi_siso lib (self\<lparr>drv_ssrom := old\<rparr>) frequency r =
   (fst (dual_rational_arnoldi_siso lib self frequency r),
    (snd (dual_rational_arnoldi_siso lib self frequency r))\<lparr>drv_ssrom := old\<rparr>)"
  by (auto simp: dual_rational_arnoldi_siso_def split: option.splits sum.splits prod.splits)

lemma dual_keeps_ss:
  "drv_ss (snd (dual_rational_arnoldi_siso lib self frequency r)) = drv_ss self"
  by (auto simp: dual_rational_arnoldi_siso_def split: option.splits sum.splits prod.splits)

lemma store_rom_success:
  assumes "fst (store_rom s res) = None" and "drv_ss s = drv_ss self"
  shows "\<exists>sys rom. drv_ss self = Some sys
           \<and> drv_ss (snd (store_rom s res)) = Some sys
           \<and> drv_ssrom (snd (store_rom s res)) = Some rom
           \<and> rom_D rom = ssD sys \<and> rom_dt rom = ssdt sys
           \<and> (\<forall>old. store_rom (s\<lparr>drv_ssrom := old\<rparr>) res = store_rom s res)"
  using assms by (auto simp: store_rom_def libss_ss_def split: sum.splits option.splits)

lemma update_ssrom_first:
  "(self\<lparr>drv_ssrom := old\<rparr>)\<lparr>drv_algorithm := a, drv_frequency := f, drv_r := r\<rparr>
     = (self\<lparr>drv_algorithm := a, drv_frequency := f, drv_r := r\<rparr>)\<lparr>drv_ssrom := old\<rparr>"
  by simp

lemma run_as_store:
  assumes "fst (run lib self algorithm r frequency) = None"
  shows "\<exists>s res. drv_ss s = drv_ss self
           \<and> run lib self algorithm r frequency = store_rom s res
           \<and> (\<forall>old. run lib (self\<lparr>drv_ssrom := old\<rparr>) algorithm r frequency
                        = store_rom (s\<lparr>drv_ssrom := old\<rparr>) res)"
proof -
  let ?self1 = "self\<lparr>drv_algorithm := Some algorithm, drv_frequency := frequency, drv_r := r\<rparr>"
  let ?d = "dual_rational_arnoldi_siso lib ?self1 frequency r"
  consider (one) "algorithm = ''arnoldi''" | (two) "algorithm = ''two_sided_arnoldi''"
    | (dual) "algorithm = ''dual_rational_arnoldi''"
    | (rr) "algorithm = ''real_rational_arnoldi''"
    | (other) "algorithm \<noteq> ''arnoldi''" "algorithm \<noteq> ''two_sided_arnoldi''"
        "algorithm \<noteq> ''dual_rational_arnoldi''" "algorithm \<noteq> ''real_rational_arnoldi''"
    by blast
  then show ?thesis
  proof cases
    case one
    show ?thesis
      apply (rule exI [of _ ?self1])
      apply (rule exI [of _ "one_sided_arnoldi lib (drv_ss self) frequency r"])
      apply (simp add: one run_def Let_def update_ssrom_first)
      done
  next
    case two
    show ?thesis
      apply (rule exI [of _ ?self1])
      apply (rule exI [of _ "two_sided_arnoldi lib (drv_ss self) frequency r"])
      apply (simp add: two run_def Let_def update_ssrom_first)
      done
  next
    case dual
    show ?thesis
      apply (rule exI [of _ "snd ?d"])
      apply (rule exI [of _ "fst ?d"])
      apply (simp add: dual run_def Let_def update_ssrom_first dual_ignores_ssrom dual_keeps_ss
                       case_prod_unfold)
      done
  next
    case rr
    then have False using assms
      by (simp add: run_def Let_def real_rational_arnoldi_def store_rom_def)
    then show ?thesis ..
  next
    case other
    then have False using assms by (simp add: run_def Let_def)
    then show ?thesis ..
  qed
qed

text \<open>
  C5, as the claim states it, fails: the name \<open>one_sided_arnoldi\<close> is not recognised, the
  driver raises NotImplementedError on it.
\<close>

theorem run_one_sided_name_counterexample:
  "fst (run exact_lib (initialise init_driver sys1) ''one_sided_arnoldi'' 1 FInf)
     = Some NotImplementedError"
  by (simp add: run_def)

text \<open>
  C5, amended. The recognised names are \<open>arnoldi\<close>, \<open>two_sided_arnoldi\<close>,
  \<open>dual_rational_arnoldi\<close> and \<open>real_rational_arnoldi\<close>. After recording the algorithm,
  the point and the order, \<open>run\<close> hands over to the reducer of that name (the one-sided
  reducer for \<open>arnoldi\<close>) and stores what it returns; the real-rational reducer raises
  NotImplementedError. Every other name raises NotImplementedError at once, and the stored
  reduced model is the one from before the call.
\<close>

theorem run_dispatch:
  "let self1 = self\<lparr>drv_algorithm := Some algorithm, drv_frequency := frequency, drv_r := r\<rparr>;
       out = run lib self algorithm r frequency
   in (algorithm = ''arnoldi'' \<longrightarrow>
         out = store_rom self1 (one_sided_arnoldi lib (drv_ss self) frequency r))
    \<and> (algorithm = ''two_sided_arnoldi'' \<longrightarrow>
         out = store_rom self1 (two_sided_arnoldi lib (drv_ss self) frequency r))
    \<and> (algorithm = ''dual_rational_arnoldi'' \<longrightarrow>
         out = store_rom (snd (dual_rational_arnoldi_siso lib self1 frequency r))
                 (fst (dual_rational_arnoldi_siso lib self1 frequency r)))
    \<and> (algorithm = ''real_rational_arnoldi'' \<longrightarrow>
         out = store_rom self1 (real_rational_arnoldi (drv_ss self) frequency r)
         \<and> out = (Some NotImplementedError, self1))
    \<and> (algorithm \<notin> {''arnoldi'', ''two_sided_arnoldi'', ''dual_rational_arnoldi'',
                      ''real_rational_arnoldi''} \<longrightarrow>
         out = (Some NotImplementedError, self1) \<and> drv_ssrom (snd out) = drv_ssrom self)"
proof -
  have "store_rom s (Inl e) = (Some e, s)" for s :: "'a driver" and e
    by (simp add: store_rom_def)
  then show ?thesis
    by (auto simp: run_def Let_def real_rational_arnoldi_def split: prod.splits)
qed

theorem run_dispatch_witness:
  "fst (run exact_lib (initialise init_driver sys1) ''arnoldi'' 1 FInf) = None
   \<and> run exact_lib (initialise init_driver sys1) ''krylov'' 1 FInf
       = (Some NotImplementedError,
          (initialise init_driver sys1)
            \<lparr>drv_algorithm := Some ''krylov'', drv_frequency := FInf, drv_r := 1\<rparr>)"
  using run_dispatch [where self = "initialise init_driver sys1" and algorithm = "''arnoldi''"
                         and frequency = FInf and r = 1 and lib = exact_lib]
        run_dispatch [where self = "initialise init_driver sys1" and algorithm = "''krylov''"
                         and frequency = FInf and r = 1 and lib = exact_lib]
  by (simp add: sys1_def driver_defs krylov_defs arr_defs)

text \<open>
  C7, as the claim states it, fails: on the one-state system \<open>sys1\<close> the order 2 is
  accepted; \<open>run\<close> raises nothing and stores a reduced model, whose matrices hold NaN
  from index 1 on.
\<close>

theorem run_order_above_states_counterexample:
  "states sys1 < 2
   \<and> fst (run exact_lib (initialise init_driver sys1) ''arnoldi'' 2 FInf) = None
   \<and> map_option (\<lambda>rom. nan_from (rom_mats rom))
         (drv_ssrom (snd (run exact_lib (initialise init_driver sys1) ''arnoldi'' 2 FInf)))
       = Some (Some 1)"
  by (simp add: sys1_def driver_defs krylov_defs arr_defs eval_nat_numeral)

text \<open>
  C7, amended. The driver compares the order with the state dimension nowhere. With the
  algorithm \<open>arnoldi\<close> and the point \<open>None\<close> or infinity, for every attached system and
  every order of at least one, whatever the state dimension, \<open>run\<close> raises nothing and
  stores a reduced model.
\<close>

theorem run_no_order_check:
  assumes "drv_ss self = Some sys" and "1 \<le> r" and "frequency = FInf \<or> frequency = FNone"
  shows "fst (run lib self ''arnoldi'' r frequency) = None
    \<and> drv_ssrom (snd (run lib self ''arnoldi'' r frequency)) \<noteq> None"
  using assms one_sided_inf_returns [of r frequency lib sys]
  by (auto simp: run_def store_rom_def Let_def)

theorem run_no_order_check_witness:
  "states sys1 < 3
   \<and> fst (run exact_lib (initialise init_driver sys1) ''arnoldi'' 3 FNone) = None
   \<and> drv_ssrom (snd (run exact_lib (initialise init_driver sys1) ''arnoldi'' 3 FNone)) \<noteq> None"
proof -
  have a: "drv_ss (initialise init_driver sys1) = Some sys1"
    by (simp add: initialise_def)
  have b: "(1::nat) \<le> 3" by simp
  have c: "(FNone :: real frequency) = FInf \<or> (FNone :: real frequency) = FNone" by simp
  from run_no_order_check [OF a b c, of exact_lib] show ?thesis
    by (simp add: sys1_def)
qed

text \<open>
  C9. When \<open>run\<close> raises nothing, a system is attached and is the same after the call; a
  reduced model is stored whose D and sample interval are those of the attached system; and
  the driver the call leaves does not depend on the reduced model stored before.
\<close>

theorem run_success_stores:
  assumes "fst (run lib self algorithm r frequency) = None"
  shows "\<exists>sys rom. drv_ss self = Some sys
           \<and> drv_ss (snd (run lib self algorithm r frequency)) = Some sys
           \<and> drv_ssrom (snd (run lib self algorithm r frequency)) = Some rom
           \<and> rom_D rom = ssD sys \<and> rom_dt rom = ssdt sys
           \<and> (\<forall>old. run lib (self\<lparr>drv_ssrom := old\<rparr>) algorithm r frequency
                      = run lib self algorithm r frequency)"
proof -
  from run_as_store [OF assms] obtain s res where
    ss: "drv_ss s = drv_ss self" and
    out: "run lib self algorithm r frequency = store_rom s res" and
    old: "\<forall>old. run lib (self\<lparr>drv_ssrom := old\<rparr>) algorithm r frequency
                = store_rom (s\<lparr>drv_ssrom := old\<rparr>) res"
    by blast
  from assms out have ok: "fst (store_rom s res) = None" by simp
  from store_rom_success [OF ok ss] show ?thesis
    unfolding out using old by simp
qed

theorem run_success_stores_witness:
  "fst (run exact_lib (initialise init_driver sys1) ''arnoldi'' 1 FInf) = None
   \<and> (\<exists>rom. drv_ssrom (snd (run exact_lib (initialise init_driver sys1) ''arnoldi'' 1 FInf))
               = Some rom
        \<and> rom_D rom = ssD sys1 \<and> rom_dt rom = ssdt sys1)"
proof -
  have ok: "fst (run exact_lib (initialise init_driver sys1) ''arnoldi'' 1 FInf) = None"
    by (simp add: sys1_def driver_defs krylov_defs arr_defs)
  have ss: "drv_ss (initialise init_driver sys1) = Some sys1"
    by (simp add: initialise_def)
  from run_success_stores [OF ok] ss ok show ?thesis by auto
qed

end
